theory Spec2Isabelle
  imports Complex_Main
begin

text \<open>
  A shallow embedding of the interactive particle visualisation: the shared store
  (\<open>store.ts\<close>), the hand tracker (\<open>WebcamHandTracker.tsx\<close>), the config generator and
  the prompt box (\<open>services/gemini.ts\<close>, \<open>Controls.tsx\<close>) and the particle renderer
  (\<open>Particles.tsx\<close>), followed by the properties proved of them. Each component is a
  function from the values it reads and its state to its new state; the camera, the
  landmark model, the remote text service and the clock are inputs.
\<close>

section \<open>Numbers and the library functions the program calls\<close>

text \<open>
  A JavaScript \<open>number\<close> is modelled as a \<open>real\<close>; the infinities and NaN of IEEE
  doubles are outside the model. \<open>null\<close> is \<open>None\<close>. The arithmetic of the store, of
  the prompt box and of the renderer is exact. The distances that the gesture
  classifier compares are rounded as the doubles they are, see below.

  The functions below are those of three.js that the components call:
  \<open>THREE.MathUtils.lerp(x, y, t) = (1 - t) * x + t * y\<close>,
  \<open>THREE.MathUtils.clamp(value, min, max) = Math.max(min, Math.min(max, value))\<close>,
  \<open>Vector2.length\<close> and \<open>Vector3.lerp\<close>.
\<close>

definition lerp :: "real \<Rightarrow> real \<Rightarrow> real \<Rightarrow> real" where
  "lerp x y t = (1 - t) * x + t * y"

definition clamp :: "real \<Rightarrow> real \<Rightarrow> real \<Rightarrow> real" where
  "clamp v lo hi = max lo (min hi v)"

record Vector2 =
  v2_x :: real
  v2_y :: real

record Vector3 =
  v3_x :: real
  v3_y :: real
  v3_z :: real

definition Vector2_length :: "Vector2 \<Rightarrow> real" where
  "Vector2_length v = sqrt (v2_x v * v2_x v + v2_y v * v2_y v)"

definition Vector3_lerp :: "Vector3 \<Rightarrow> Vector3 \<Rightarrow> real \<Rightarrow> Vector3" where
  "Vector3_lerp this v alpha =
     \<lparr>v3_x = v3_x this + (v3_x v - v3_x this) * alpha,
      v3_y = v3_y this + (v3_y v - v3_y this) * alpha,
      v3_z = v3_z this + (v3_z v - v3_z this) * alpha\<rparr>"

datatype js_error = TypeError | SyntaxError | ApiError | Error string

subsection \<open>Doubles\<close>

text \<open>
  \<open>double_round x\<close> is the double nearest to \<open>x\<close>: 53 significant bits, ties to the
  even neighbour, the spacing of the subnormal numbers below \<open>2\<^sup>-\<^sup>1\<^sup>0\<^sup>2\<^sup>2\<close>. A result
  beyond the largest double would be an infinity in the program; the coordinates of a
  landmark are single-precision values, whose differences are far from that.
  \<open>double_sub\<close> is the subtraction of two doubles, which IEEE 754 defines as the
  rounded exact difference.

  ECMAScript leaves the result of \<open>Math.hypot\<close> implementation-approximated, so the
  tracker below takes \<open>Math.hypot\<close> as a parameter, and what is proved of it holds for
  every implementation. \<open>double_hypot\<close> is the correctly rounded one, the rounded exact
  square root of the sum of the squares.
\<close>

definition round_half_even :: "real \<Rightarrow> int" where
  "round_half_even q =
     (let f = \<lfloor>q\<rfloor>; d = q - of_int f
      in if d < 1 / 2 then f else if 1 / 2 < d then f + 1 else if even f then f else f + 1)"

definition double_round :: "real \<Rightarrow> real" where
  "double_round x =
     (if x = 0 then 0
      else
        (let e = max \<lfloor>log 2 (abs x)\<rfloor> (- 1022) - 52
         in of_int (round_half_even (x / 2 powr of_int e)) * 2 powr of_int e))"

definition double_sub :: "real \<Rightarrow> real \<Rightarrow> real" where
  "double_sub a b = double_round (a - b)"

definition double_hypot :: "real \<Rightarrow> real \<Rightarrow> real \<Rightarrow> real" where
  "double_hypot a b c = double_round (sqrt (a * a + b * b + c * c))"

section \<open>The shared store (store.ts)\<close>

record ParticleConfig =
  color1 :: string
  color2 :: string
  particleSize :: real
  speed :: real
  noiseScale :: real
  interactionRadius :: real
  particleCount :: nat

text \<open>
  \<open>particleCount\<close> sizes the two arrays of the cloud and bounds its loop: a natural
  number. \<open>Partial<ParticleConfig>\<close>: every field may be absent.
\<close>

record PartialParticleConfig =
  p_color1 :: "string option"
  p_color2 :: "string option"
  p_particleSize :: "real option"
  p_speed :: "real option"
  p_noiseScale :: "real option"
  p_interactionRadius :: "real option"
  p_particleCount :: "nat option"

datatype HandGesture = OPEN | CLOSED | NEUTRAL

record AppState =
  handPosition :: "Vector3 option"
  isHandDetected :: bool
  gesture :: "HandGesture option"
  config :: ParticleConfig
  isConfiguring :: bool
  error :: "string option"

definition DEFAULT_CONFIG :: ParticleConfig where
  "DEFAULT_CONFIG =
     \<lparr>color1 = ''#00ffff'', color2 = ''#ff00ff'', particleSize = 0.15, speed = 1.0,
      noiseScale = 1.0, interactionRadius = 2.0, particleCount = 8000\<rparr>"

definition initialStore :: AppState where
  "initialStore =
     \<lparr>handPosition = None, isHandDetected = False, gesture = None,
      config = DEFAULT_CONFIG, isConfiguring = False, error = None\<rparr>"

definition setHandPosition :: "Vector3 option \<Rightarrow> AppState \<Rightarrow> AppState" where
  "setHandPosition pos st = st\<lparr>handPosition := pos\<rparr>"

definition setIsHandDetected :: "bool \<Rightarrow> AppState \<Rightarrow> AppState" where
  "setIsHandDetected detected st = st\<lparr>isHandDetected := detected\<rparr>"

definition setGesture :: "HandGesture option \<Rightarrow> AppState \<Rightarrow> AppState" where
  "setGesture g st = st\<lparr>gesture := g\<rparr>"

definition setError :: "string option \<Rightarrow> AppState \<Rightarrow> AppState" where
  "setError e st = st\<lparr>error := e\<rparr>"

text \<open>
  The object spread \<open>{ ...state.config, ...newConfig }\<close>: a key of \<open>newConfig\<close>
  replaces the key of \<open>state.config\<close>, every other key of \<open>state.config\<close> stays.
\<close>

definition spread :: "ParticleConfig \<Rightarrow> PartialParticleConfig \<Rightarrow> ParticleConfig" where
  "spread c n =
     \<lparr>color1 = (case p_color1 n of None \<Rightarrow> color1 c | Some v \<Rightarrow> v),
      color2 = (case p_color2 n of None \<Rightarrow> color2 c | Some v \<Rightarrow> v),
      particleSize = (case p_particleSize n of None \<Rightarrow> particleSize c | Some v \<Rightarrow> v),
      speed = (case p_speed n of None \<Rightarrow> speed c | Some v \<Rightarrow> v),
      noiseScale = (case p_noiseScale n of None \<Rightarrow> noiseScale c | Some v \<Rightarrow> v),
      interactionRadius =
        (case p_interactionRadius n of None \<Rightarrow> interactionRadius c | Some v \<Rightarrow> v),
      particleCount = (case p_particleCount n of None \<Rightarrow> particleCount c | Some v \<Rightarrow> v)\<rparr>"

definition setConfig :: "PartialParticleConfig \<Rightarrow> AppState \<Rightarrow> AppState" where
  "setConfig newConfig st = st\<lparr>config := spread (config st) newConfig\<rparr>"

section \<open>The hand tracker (WebcamHandTracker.tsx)\<close>

record NormalizedLandmark =
  lm_x :: real
  lm_y :: real
  lm_z :: real

text \<open>
  Reading an array element: \<open>landmarks[i]\<close> is \<open>undefined\<close> past the end, and reading
  a coordinate of \<open>undefined\<close> throws a \<open>TypeError\<close>.
\<close>

definition elemAt :: "'a list \<Rightarrow> nat \<Rightarrow> 'a option" where
  "elemAt xs i = (if i < length xs then Some (xs ! i) else None)"

text \<open>
  The distance of a landmark to the wrist as \<open>isFingerFolded\<close> computes it:
  \<open>Math.hypot(p.x - wrist.x, p.y - wrist.y, p.z - wrist.z)\<close>, three subtractions of
  doubles and one call of \<open>Math.hypot\<close>.
\<close>

definition wristDist ::
  "(real \<Rightarrow> real \<Rightarrow> real \<Rightarrow> real) \<Rightarrow> NormalizedLandmark \<Rightarrow> NormalizedLandmark \<Rightarrow> real" where
  "wristDist Math_hypot p wrist =
     Math_hypot (double_sub (lm_x p) (lm_x wrist)) (double_sub (lm_y p) (lm_y wrist))
       (double_sub (lm_z p) (lm_z wrist))"

definition isFingerFolded ::
  "(real \<Rightarrow> real \<Rightarrow> real \<Rightarrow> real) \<Rightarrow> NormalizedLandmark list \<Rightarrow> NormalizedLandmark option
     \<Rightarrow> nat \<Rightarrow> nat \<Rightarrow> js_error + bool" where
  "isFingerFolded Math_hypot landmarks wrist tipIdx pipIdx =
     (case (elemAt landmarks tipIdx, wrist, elemAt landmarks pipIdx) of
        (Some tip, Some w, Some pip) \<Rightarrow>
          (let distTip = wristDist Math_hypot tip w; distPip = wristDist Math_hypot pip w
           in Inr (distTip < distPip))
      | _ \<Rightarrow> Inl TypeError)"

text \<open>
  The four checks on Index (8,6), Middle (12,10), Ring (16,14), Pinky (20,18), each
  incrementing \<open>foldedCount\<close>; the first one that throws ends the count.
\<close>

fun countFolded ::
  "(real \<Rightarrow> real \<Rightarrow> real \<Rightarrow> real) \<Rightarrow> NormalizedLandmark list \<Rightarrow> NormalizedLandmark option
     \<Rightarrow> (nat \<times> nat) list \<Rightarrow> nat \<Rightarrow> js_error + nat" where
  "countFolded Math_hypot landmarks wrist [] foldedCount = Inr foldedCount"
| "countFolded Math_hypot landmarks wrist ((tipIdx, pipIdx) # fingers) foldedCount =
     (case isFingerFolded Math_hypot landmarks wrist tipIdx pipIdx of
        Inl e \<Rightarrow> Inl e
      | Inr folded \<Rightarrow>
          countFolded Math_hypot landmarks wrist fingers
            (if folded then foldedCount + 1 else foldedCount))"

definition fingers :: "(nat \<times> nat) list" where
  "fingers = [(8, 6), (12, 10), (16, 14), (20, 18)]"

definition foldedCount ::
  "(real \<Rightarrow> real \<Rightarrow> real \<Rightarrow> real) \<Rightarrow> NormalizedLandmark list \<Rightarrow> js_error + nat" where
  "foldedCount Math_hypot landmarks =
     countFolded Math_hypot landmarks (elemAt landmarks 0) fingers 0"

definition gestureOf :: "nat \<Rightarrow> HandGesture" where
  "gestureOf n = (if n \<ge> 4 then CLOSED else if n \<le> 1 then OPEN else NEUTRAL)"

record TrackerState =
  store :: AppState
  lastVideoTime :: real

text \<open>
  One call of \<open>predictWebcam\<close> sees whether the landmarker and the video exist, the
  video's \<open>currentTime\<close>, and what \<open>detectForVideo\<close> returns for that frame
  (\<open>results.landmarks\<close>, one list of landmarks per hand, possibly missing).
\<close>

record VideoFrame =
  trackerReady :: bool
  currentTime :: real
  results_landmarks :: "NormalizedLandmark list list option"

text \<open>
  The landmarker returns 21 landmarks for every hand it reports; a frame whose hands
  all have them is well formed.
\<close>

abbreviation wellFormedFrame :: "VideoFrame \<Rightarrow> bool" where
  "wellFormedFrame f \<equiv>
     (case results_landmarks f of
        None \<Rightarrow> True
      | Some hands \<Rightarrow> list_all (\<lambda>h. 21 \<le> length h) hands)"

definition initialTracker :: TrackerState where
  "initialTracker = \<lparr>store = initialStore, lastVideoTime = -1\<rparr>"

text \<open>
  The branch for a detected hand. The store is written three times, in the order of
  the source; an exception leaves the writes made before it.
\<close>

definition handFound ::
  "(real \<Rightarrow> real \<Rightarrow> real \<Rightarrow> real) \<Rightarrow> NormalizedLandmark list \<Rightarrow> AppState
     \<Rightarrow> AppState \<times> js_error option" where
  "handFound Math_hypot landmarks st =
     (let s1 = setIsHandDetected True st in
      case elemAt landmarks 8 of
        None \<Rightarrow> (s1, Some TypeError)
      | Some indexTip \<Rightarrow>
          (let x = (0.5 - lm_x indexTip) * 10;
               y = (0.5 - lm_y indexTip) * 8;
               z = lm_z indexTip * (- 10);
               s2 = setHandPosition (Some \<lparr>v3_x = x, v3_y = y, v3_z = z\<rparr>) s1
           in case foldedCount Math_hypot landmarks of
                Inl e \<Rightarrow> (s2, Some e)
              | Inr n \<Rightarrow> (setGesture (Some (gestureOf n)) s2, None)))"

definition noHand :: "AppState \<Rightarrow> AppState" where
  "noHand st = setGesture None (setHandPosition None (setIsHandDetected False st))"

definition predictWebcam ::
  "(real \<Rightarrow> real \<Rightarrow> real \<Rightarrow> real) \<Rightarrow> VideoFrame \<Rightarrow> TrackerState
     \<Rightarrow> TrackerState \<times> js_error option" where
  "predictWebcam Math_hypot f t =
     (if \<not> trackerReady f then (t, None)
      else if currentTime f \<noteq> lastVideoTime t then
        (let t1 = t\<lparr>lastVideoTime := currentTime f\<rparr> in
         case results_landmarks f of
           Some (landmarks # _) \<Rightarrow>
             (case handFound Math_hypot landmarks (store t1) of
                (s, e) \<Rightarrow> (t1\<lparr>store := s\<rparr>, e))
         | _ \<Rightarrow> (t1\<lparr>store := noHand (store t1)\<rparr>, None))
      else (t, None))"

text \<open>
  The tracker loop: \<open>predictWebcam\<close> ends by scheduling itself for the next animation
  frame, unless it threw or returned at its first line, so a run over a sequence of
  frames ends at the first exception and at the first frame for which the tracker is
  not ready.
\<close>

fun trackerRun ::
  "(real \<Rightarrow> real \<Rightarrow> real \<Rightarrow> real) \<Rightarrow> VideoFrame list \<Rightarrow> TrackerState
     \<Rightarrow> TrackerState \<times> js_error option" where
  "trackerRun Math_hypot [] t = (t, None)"
| "trackerRun Math_hypot (f # fs) t =
     (case predictWebcam Math_hypot f t of
        (t', None) \<Rightarrow> if trackerReady f then trackerRun Math_hypot fs t' else (t', None)
      | (t', Some e) \<Rightarrow> (t', Some e))"

section \<open>The config generator (services/gemini.ts) and the prompt box (Controls.tsx)\<close>

record GenerateContentResponse =
  response_text :: "string option"

text \<open>
  \<open>generateContent\<close> is the remote call, as a function of the prompt it is sent: it
  rejects (\<open>Inl\<close>) or resolves to a response whose \<open>text\<close> may be missing.
  \<open>JSON_parse\<close> is \<open>JSON.parse\<close> followed by the cast to \<open>Partial<ParticleConfig>\<close>;
  it throws on malformed text. An empty string is falsy in \<open>if (response.text)\<close>.
  The \<open>catch\<close> block logs the error and throws it again.
\<close>

definition generateParticleConfig ::
  "(string \<Rightarrow> js_error + PartialParticleConfig) \<Rightarrow> (string \<Rightarrow> js_error + GenerateContentResponse)
     \<Rightarrow> string \<Rightarrow> js_error + PartialParticleConfig" where
  "generateParticleConfig JSON_parse generateContent prompt =
     (case generateContent prompt of
        Inl e \<Rightarrow> Inl e
      | Inr response \<Rightarrow>
          (case response_text response of
             Some t \<Rightarrow>
               if t \<noteq> [] then JSON_parse t else Inl (Error ''No response text from Gemini'')
           | None \<Rightarrow> Inl (Error ''No response text from Gemini'')))"

record ControlsState =
  prompt :: string
  isLoading :: bool

text \<open>
  The submit handler of the prompt box. It awaits the generator; the model runs the
  handler as one step, with no other write to the store between its statements.
  A \<open>char\<close> is a code unit below 256; of these \<open>String.prototype.trim\<close> strips the
  tab, the line feed, the vertical tab, the form feed, the carriage return, the space
  and the no-break space (the other white space of ECMAScript lies above 255).
\<close>

definition isWhiteSpace :: "char \<Rightarrow> bool" where
  "isWhiteSpace c =
     (c \<in> set [CHR '' '', CHR 0x09, CHR 0x0A, CHR 0x0B, CHR 0x0C, CHR 0x0D, CHR 0xA0])"

definition trim :: "string \<Rightarrow> string" where
  "trim s = rev (dropWhile isWhiteSpace (rev (dropWhile isWhiteSpace s)))"

definition GENERATION_FAILED :: string where
  "GENERATION_FAILED = ''Failed to generate config. Check API Key or try again.''"

definition handleSubmit ::
  "(string \<Rightarrow> js_error + PartialParticleConfig) \<Rightarrow> (string \<Rightarrow> js_error + GenerateContentResponse)
     \<Rightarrow> ControlsState \<times> AppState \<Rightarrow> ControlsState \<times> AppState" where
  "handleSubmit JSON_parse generateContent cs =
     (case cs of (c, st) \<Rightarrow>
        if trim (prompt c) = [] then (c, st)
        else
          (let c1 = c\<lparr>isLoading := True\<rparr>;
               st1 = setError None st
           in case generateParticleConfig JSON_parse generateContent (prompt c1) of
                Inr newConfig \<Rightarrow> (c1\<lparr>prompt := [], isLoading := False\<rparr>, setConfig newConfig st1)
              | Inl err \<Rightarrow> (c1\<lparr>isLoading := False\<rparr>, setError (Some GENERATION_FAILED) st1)))"

section \<open>The particle renderer (Particles.tsx)\<close>

subsection \<open>The frame callback\<close>

record RenderState =
  momentum :: Vector2
  lastHandPos :: "Vector3 option"
  currentScale :: real
  rotation_x :: real
  rotation_y :: real
  uTime :: real
  uHandPos :: Vector3
  uHasHand :: real
  uInteractRadius :: real
  uExpansion :: real

text \<open>
  The state the callback keeps between frames: the three refs \<open>momentum\<close>,
  \<open>lastHandPos\<close> and \<open>currentScale\<close>, the two rotation angles of the mesh, and the
  uniforms it writes. The effect that copies a changed configuration into the uniforms
  runs outside the callback and is not part of it.

  What one call of the frame callback reads: the clock, the store values of the last
  render, whether the two refs are set, and the mesh's \<open>worldToLocal\<close> transform.
\<close>

record FrameProps =
  elapsedTime :: real
  props :: AppState
  meshMounted :: bool
  materialMounted :: bool
  worldToLocal :: "Vector3 \<Rightarrow> Vector3"

definition LERP_SPEED :: real where "LERP_SPEED = 0.12"
definition SENSITIVITY :: real where "SENSITIVITY = 0.5"
definition MOMENTUM_LERP :: real where "MOMENTUM_LERP = 0.15"
definition FRICTION :: real where "FRICTION = 0.98"
definition MAX_SPEED :: real where "MAX_SPEED = 0.5"

definition initialRender :: "ParticleConfig \<Rightarrow> RenderState" where
  "initialRender c =
     \<lparr>momentum = \<lparr>v2_x = 0, v2_y = 0\<rparr>, lastHandPos = None, currentScale = 1.0,
      rotation_x = 0, rotation_y = 0, uTime = 0,
      uHandPos = \<lparr>v3_x = 0, v3_y = 0, v3_z = 0\<rparr>, uHasHand = 0.0,
      uInteractRadius = interactionRadius c, uExpansion = 1.0\<rparr>"

definition targetScale :: "bool \<Rightarrow> HandGesture option \<Rightarrow> real" where
  "targetScale detected g =
     (if detected then
        (case g of
           Some CLOSED \<Rightarrow> 0.4
         | Some OPEN \<Rightarrow> 1.3
         | Some NEUTRAL \<Rightarrow> 1.0
         | None \<Rightarrow> 1.0)
      else 1.0)"

definition zInfluence :: "Vector3 \<Rightarrow> real" where
  "zInfluence handPos = clamp (1.0 + abs (v3_z handPos) * 0.5) 0.5 3.0"

definition handBranch :: "FrameProps \<Rightarrow> Vector3 \<Rightarrow> RenderState \<Rightarrow> RenderState" where
  "handBranch p handPos r =
     (let last = (case lastHandPos r of None \<Rightarrow> handPos | Some l \<Rightarrow> l);
          dx = v3_x handPos - v3_x last;
          dy = v3_y handPos - v3_y last;
          targetVelX = - dy * SENSITIVITY;
          targetVelY = dx * SENSITIVITY;
          r1 = r\<lparr>momentum := \<lparr>v2_x = lerp (v2_x (momentum r)) targetVelX MOMENTUM_LERP,
                                v2_y = lerp (v2_y (momentum r)) targetVelY MOMENTUM_LERP\<rparr>,
                 lastHandPos := Some handPos\<rparr>;
          localHandPos = worldToLocal p handPos
      in if materialMounted p then
           r1\<lparr>uHandPos := Vector3_lerp (uHandPos r1) localHandPos 0.5,
              uHasHand := 1.0,
              uInteractRadius :=
                lerp (uInteractRadius r1)
                  (interactionRadius (config (props p)) * zInfluence handPos) 0.1\<rparr>
         else r1)"

definition snap :: "real \<Rightarrow> real" where
  "snap m = (if abs m < 0.0001 then 0 else m)"

definition idleBranch :: "FrameProps \<Rightarrow> RenderState \<Rightarrow> RenderState" where
  "idleBranch p r =
     (let r1 = r\<lparr>lastHandPos := None\<rparr>;
          r2 = (if materialMounted p then r1\<lparr>uHasHand := 0.0\<rparr> else r1)
      in r2\<lparr>momentum := \<lparr>v2_x = snap (v2_x (momentum r2) * FRICTION),
                           v2_y = snap (v2_y (momentum r2) * FRICTION)\<rparr>\<rparr>)"

definition clampAndRotate :: "RenderState \<Rightarrow> RenderState" where
  "clampAndRotate r =
     (let mx = clamp (v2_x (momentum r)) (- MAX_SPEED) MAX_SPEED;
          my = clamp (v2_y (momentum r)) (- MAX_SPEED) MAX_SPEED
      in r\<lparr>momentum := \<lparr>v2_x = mx, v2_y = my\<rparr>,
           rotation_x := rotation_x r + mx,
           rotation_y := rotation_y r + my\<rparr>)"

text \<open>
  The callback in two parts, as the source marks them: the time uniform and the
  expansion physics, run on every frame, and the rotation physics, run when the mesh
  ref is set.
\<close>

definition expansionPhysics :: "FrameProps \<Rightarrow> RenderState \<Rightarrow> RenderState" where
  "expansionPhysics p r =
     (let st = props p;
          r1 = (if materialMounted p then r\<lparr>uTime := elapsedTime p\<rparr> else r);
          r2 = r1\<lparr>currentScale :=
                   lerp (currentScale r1) (targetScale (isHandDetected st) (gesture st))
                     LERP_SPEED\<rparr>
      in if materialMounted p then r2\<lparr>uExpansion := currentScale r2\<rparr> else r2)"

definition rotationPhysics :: "FrameProps \<Rightarrow> RenderState \<Rightarrow> RenderState" where
  "rotationPhysics p r =
     clampAndRotate
       (case (isHandDetected (props p), handPosition (props p)) of
          (True, Some handPos) \<Rightarrow> handBranch p handPos r
        | _ \<Rightarrow> idleBranch p r)"

definition useFrame :: "FrameProps \<Rightarrow> RenderState \<Rightarrow> RenderState" where
  "useFrame p r =
     (let r3 = expansionPhysics p r
      in if meshMounted p then rotationPhysics p r3 else r3)"

text \<open>A frame rendered with the mesh mounted and no hand detected.\<close>

abbreviation noHandFrame :: "FrameProps \<Rightarrow> bool" where
  "noHandFrame p \<equiv> meshMounted p \<and> \<not> isHandDetected (props p)"

text \<open>A run of frames, one call of the callback per display refresh.\<close>

fun frames :: "FrameProps list \<Rightarrow> RenderState \<Rightarrow> RenderState" where
  "frames [] r = r"
| "frames (p # ps) r = frames ps (useFrame p r)"

section \<open>Rounding to a double\<close>

lemma double_round_zero: "double_round 0 = 0"
  by (simp add: double_round_def)

text \<open>A value from a power of two up to less than half a step above it rounds to it.\<close>

lemma double_round_binade:
  assumes lo: "2 powr of_int k \<le> x" and hi: "x < 2 powr of_int k * (1 + 1 / 2 ^ 53)"
    and k: "- 1022 \<le> k"
  shows "double_round x = 2 powr of_int k"
proof -
  define s :: real where "s = 2 powr of_int (k - 52)"
  have s_pos: "0 < s" by (simp add: s_def)
  have pk: "2 powr of_int k = 2 ^ 52 * s"
  proof -
    have "2 powr of_int k = (2::real) powr (52 + of_int (k - 52))" by simp
    also have "\<dots> = 2 powr 52 * 2 powr of_int (k - 52)" by (rule powr_add)
    also have "(2::real) powr 52 = 2 ^ 52" by (simp add: powr_numeral)
    finally show ?thesis by (simp add: s_def)
  qed
  have x_pos: "0 < x" using lo powr_gt_zero [of 2 "of_int k"] by linarith
  have "x < 2 powr of_int k * 2"
  proof -
    have "2 powr of_int k * (1 + 1 / 2 ^ 53) \<le> 2 powr of_int k * (2::real)"
      by (intro mult_left_mono) simp_all
    with hi show ?thesis by linarith
  qed
  also have "2 powr of_int k * 2 = (2::real) powr (of_int k + 1)"
    by (simp add: powr_add)
  finally have hi2: "x < 2 powr (of_int k + 1)" .
  have "of_int k \<le> log 2 x" using lo x_pos by (simp add: le_log_iff)
  moreover have "log 2 x < of_int k + 1" using hi2 x_pos by (simp add: log_less_iff)
  ultimately have fl: "\<lfloor>log 2 x\<rfloor> = k" by (simp add: floor_eq_iff)
  have e: "max \<lfloor>log 2 (abs x)\<rfloor> (- 1022) - 52 = k - 52"
    using fl x_pos k by simp
  define q where "q = x / s"
  have q_lo: "2 ^ 52 \<le> q"
    using lo s_pos unfolding q_def pk by (simp add: pos_le_divide_eq)
  have q_hi: "q < 2 ^ 52 + 1 / 2"
  proof -
    have "x < (2 ^ 52 + 1 / 2) * s" using hi unfolding pk by (simp add: algebra_simps)
    then show ?thesis using s_pos unfolding q_def by (simp add: pos_divide_less_eq)
  qed
  have fq: "\<lfloor>q\<rfloor> = 2 ^ 52"
    using q_lo q_hi by (simp add: floor_eq_iff)
  have r: "round_half_even q = 2 ^ 52"
    using q_hi by (simp add: round_half_even_def fq Let_def)
  have "double_round x = of_int (round_half_even q) * s"
    unfolding double_round_def Let_def e q_def s_def using x_pos by simp
  also have "\<dots> = 2 ^ 52 * s" by (simp add: r)
  finally show ?thesis by (simp add: pk)
qed

lemma double_round_near_one: "1 \<le> x \<Longrightarrow> x < 1 + 1 / 2 ^ 53 \<Longrightarrow> double_round x = 1"
  using double_round_binade [of 0 x] by simp

lemma double_round_1: "double_round 1 = 1"
  by (rule double_round_near_one) simp_all

lemma double_round_2: "double_round 2 = 2"
  using double_round_binade [of 1 2] by simp

lemma double_round_4: "double_round 4 = 4"
proof -
  have p: "(2::real) powr of_int 2 = 4"
    using powr_realpow [of 2 2] by simp
  show ?thesis using double_round_binade [of 2 4] unfolding p by simp
qed

lemma double_round_tiny: "double_round (1 / 2 ^ 30) = 1 / 2 ^ 30"
proof -
  have a: "(2::real) powr (- 30) = inverse (2 powr 30)" by (rule powr_minus)
  have b: "(2::real) powr 30 = 2 ^ 30"
    using powr_realpow [of 2 30] by simp
  have p: "(2::real) powr of_int (- 30) = 1 / 2 ^ 30"
    unfolding of_int_minus of_int_numeral a b by (simp add: inverse_eq_divide)
  show ?thesis using double_round_binade [of "- 30" "1 / 2 ^ 30"] unfolding p by simp
qed

lemma double_round_near_tie: "double_round (sqrt (1 + 1 / 2 ^ 60)) = 1"
proof (rule double_round_near_one)
  show "1 \<le> sqrt (1 + 1 / 2 ^ 60)" by simp
  have "sqrt (1 + 1 / 2 ^ 60) < sqrt ((1 + 1 / 2 ^ 53)\<^sup>2)"
    by (rule real_sqrt_less_mono) (simp add: power2_eq_square algebra_simps)
  then show "sqrt (1 + 1 / 2 ^ 60) < 1 + 1 / 2 ^ 53" by simp
qed

section \<open>The gesture classifier\<close>

lemma elemAt_in: "i < length xs \<Longrightarrow> elemAt xs i = Some (xs ! i)"
  by (simp add: elemAt_def)

lemma isFingerFolded_in:
  "tipIdx < length landmarks \<Longrightarrow> pipIdx < length landmarks \<Longrightarrow>
   isFingerFolded Math_hypot landmarks (Some w) tipIdx pipIdx =
     Inr (wristDist Math_hypot (landmarks ! tipIdx) w < wristDist Math_hypot (landmarks ! pipIdx) w)"
  by (simp add: isFingerFolded_def elemAt_in)

lemma countFolded_in:
  "\<forall>(tipIdx, pipIdx) \<in> set fs. tipIdx < length landmarks \<and> pipIdx < length landmarks \<Longrightarrow>
   countFolded Math_hypot landmarks (Some w) fs n =
     Inr (n + length (filter (\<lambda>(tipIdx, pipIdx).
            wristDist Math_hypot (landmarks ! tipIdx) w
              < wristDist Math_hypot (landmarks ! pipIdx) w) fs))"
proof (induction fs arbitrary: n)
  case Nil
  then show ?case by simp
next
  case (Cons a fs)
  obtain tipIdx pipIdx where a: "a = (tipIdx, pipIdx)" by (cases a)
  from Cons.prems a have in_range: "tipIdx < length landmarks" "pipIdx < length landmarks"
    and rest: "\<forall>(tipIdx, pipIdx) \<in> set fs. tipIdx < length landmarks \<and> pipIdx < length landmarks"
    by auto
  show ?case
    by (simp add: a isFingerFolded_in [OF in_range] Cons.IH [OF rest])
qed

lemma foldedCount_in:
  assumes "21 \<le> length landmarks"
  shows "foldedCount Math_hypot landmarks =
     Inr (length (filter (\<lambda>(tipIdx, pipIdx).
            wristDist Math_hypot (landmarks ! tipIdx) (landmarks ! 0)
              < wristDist Math_hypot (landmarks ! pipIdx) (landmarks ! 0)) fingers))"
proof -
  have w: "elemAt landmarks 0 = Some (landmarks ! 0)"
    using assms by (auto simp: elemAt_def)
  have r: "\<forall>(tipIdx, pipIdx) \<in> set fingers. tipIdx < length landmarks \<and> pipIdx < length landmarks"
    using assms by (simp add: fingers_def)
  show ?thesis
    unfolding foldedCount_def w by (simp add: countFolded_in [OF r])
qed

lemma gestureOf_cases:
  "(n \<ge> 4 \<longrightarrow> gestureOf n = CLOSED) \<and> (n \<le> 1 \<longrightarrow> gestureOf n = OPEN) \<and>
   (n = 2 \<or> n = 3 \<longrightarrow> gestureOf n = NEUTRAL)"
  by (auto simp: gestureOf_def)

lemma handFound_ok:
  assumes "21 \<le> length landmarks"
  shows "handFound Math_hypot landmarks st =
     (st\<lparr>isHandDetected := True,
         handPosition := Some \<lparr>v3_x = (0.5 - lm_x (landmarks ! 8)) * 10,
                                v3_y = (0.5 - lm_y (landmarks ! 8)) * 8,
                                v3_z = lm_z (landmarks ! 8) * (- 10)\<rparr>,
         gesture := Some (gestureOf (length (filter (\<lambda>(tipIdx, pipIdx).
            wristDist Math_hypot (landmarks ! tipIdx) (landmarks ! 0)
              < wristDist Math_hypot (landmarks ! pipIdx) (landmarks ! 0)) fingers)))\<rparr>, None)"
proof -
  have t: "elemAt landmarks 8 = Some (landmarks ! 8)"
    using assms by (simp add: elemAt_def)
  show ?thesis
    unfolding handFound_def t foldedCount_in [OF assms]
    by (simp add: Let_def setIsHandDetected_def setHandPosition_def setGesture_def)
qed

text \<open>
  The distances of the hands used below, under the correctly rounded \<open>Math.hypot\<close>:
  a landmark two to the right of the wrist, one four behind it, and the two of the
  near tie, one to the right of a wrist at the origin and the same raised by \<open>2\<^sup>-\<^sup>3\<^sup>0\<close>.
\<close>

lemma wristDist_right:
  "wristDist double_hypot \<lparr>lm_x = 3, lm_y = 1, lm_z = 1\<rparr> \<lparr>lm_x = 1, lm_y = 1, lm_z = 1\<rparr> = 2"
  by (simp add: wristDist_def double_sub_def double_hypot_def double_round_zero double_round_2)

lemma wristDist_behind:
  "wristDist double_hypot \<lparr>lm_x = 1, lm_y = 1, lm_z = 5\<rparr> \<lparr>lm_x = 1, lm_y = 1, lm_z = 1\<rparr> = 4"
proof -
  have "sqrt 16 = sqrt (4\<^sup>2)" by simp
  then have s: "sqrt 16 = 4" by (simp only: real_sqrt_abs abs_numeral)
  show ?thesis
    by (simp add: wristDist_def double_sub_def double_hypot_def double_round_zero double_round_4 s)
qed

lemma wristDist_self:
  "wristDist double_hypot \<lparr>lm_x = 1, lm_y = 1, lm_z = 1\<rparr> \<lparr>lm_x = 1, lm_y = 1, lm_z = 1\<rparr> = 0"
  by (simp add: wristDist_def double_sub_def double_hypot_def double_round_zero)

lemma wristDist_two:
  "wristDist double_hypot \<lparr>lm_x = 2, lm_y = 0, lm_z = 0\<rparr> \<lparr>lm_x = 0, lm_y = 0, lm_z = 0\<rparr> = 2"
  by (simp add: wristDist_def double_sub_def double_hypot_def double_round_zero double_round_2)

lemma wristDist_tip_tie:
  "wristDist double_hypot \<lparr>lm_x = 1, lm_y = 0, lm_z = 0\<rparr> \<lparr>lm_x = 0, lm_y = 0, lm_z = 0\<rparr> = 1"
  by (simp add: wristDist_def double_sub_def double_hypot_def double_round_zero double_round_1)

lemma wristDist_pip_tie:
  "wristDist double_hypot \<lparr>lm_x = 1, lm_y = 1 / 2 ^ 30, lm_z = 0\<rparr>
     \<lparr>lm_x = 0, lm_y = 0, lm_z = 0\<rparr> = 1"
proof -
  have "wristDist double_hypot \<lparr>lm_x = 1, lm_y = 1 / 2 ^ 30, lm_z = 0\<rparr>
     \<lparr>lm_x = 0, lm_y = 0, lm_z = 0\<rparr>
      = double_round (sqrt (1 * 1 + (1 / 2 ^ 30) * (1 / 2 ^ 30) + 0 * 0))"
    unfolding wristDist_def double_sub_def double_hypot_def
    by (simp only: NormalizedLandmark.simps diff_zero double_round_zero double_round_1
        double_round_tiny)
  also have "1 * 1 + (1 / 2 ^ 30) * (1 / 2 ^ 30) + 0 * 0 = (1 + 1 / 2 ^ 60 :: real)"
    by simp
  finally show ?thesis by (simp only: double_round_near_tie)
qed

text \<open>
  C1, as amended. For a hand with its 21 landmarks, \<open>foldedCount\<close> is the number of
  the four fingers Index (8,6), Middle (12,10), Ring (16,14), Pinky (20,18) (the thumb
  is not among them) for which the computed distance of the tip to the wrist, landmark
  0, is strictly smaller than that of the PIP joint, the computed distance being
  \<open>Math.hypot\<close> of the three coordinate differences in double precision, whatever
  implementation of \<open>Math.hypot\<close> the engine has. The tracker sets the detection flag,
  stores the gesture of that count and does not throw; a count of 4 or more gives
  CLOSED, of 1 or less OPEN, of 2 or 3 NEUTRAL. A tip that is closer to the wrist by
  less than the rounding of the two distances is not counted.
\<close>

theorem gesture_classifier:
  assumes "21 \<le> length landmarks"
  shows "\<exists>n. foldedCount Math_hypot landmarks = Inr n
       \<and> n = length (filter (\<lambda>(tipIdx, pipIdx).
                Math_hypot
                  (double_round (lm_x (landmarks ! tipIdx) - lm_x (landmarks ! 0)))
                  (double_round (lm_y (landmarks ! tipIdx) - lm_y (landmarks ! 0)))
                  (double_round (lm_z (landmarks ! tipIdx) - lm_z (landmarks ! 0)))
                < Math_hypot
                    (double_round (lm_x (landmarks ! pipIdx) - lm_x (landmarks ! 0)))
                    (double_round (lm_y (landmarks ! pipIdx) - lm_y (landmarks ! 0)))
                    (double_round (lm_z (landmarks ! pipIdx) - lm_z (landmarks ! 0))))
              [(8, 6), (12, 10), (16, 14), (20, 18)])
       \<and> isHandDetected (fst (handFound Math_hypot landmarks st))
       \<and> gesture (fst (handFound Math_hypot landmarks st)) = Some (gestureOf n)
       \<and> snd (handFound Math_hypot landmarks st) = None
       \<and> (n \<ge> 4 \<longrightarrow> gestureOf n = CLOSED)
       \<and> (n \<le> 1 \<longrightarrow> gestureOf n = OPEN)
       \<and> (n = 2 \<or> n = 3 \<longrightarrow> gestureOf n = NEUTRAL)"
  using foldedCount_in [OF assms, of Math_hypot] handFound_ok [OF assms, of Math_hypot st]
    gestureOf_cases
  by (simp add: fingers_def wristDist_def double_sub_def)

theorem gesture_classifier_witness:
  "let wrist = \<lparr>lm_x = 1, lm_y = 1, lm_z = 1\<rparr>;
       near = \<lparr>lm_x = 3, lm_y = 1, lm_z = 1\<rparr>;
       far = \<lparr>lm_x = 1, lm_y = 1, lm_z = 5\<rparr>;
       fist = [wrist, wrist, wrist, wrist, wrist, wrist, far, wrist, near, wrist, far, wrist,
               near, wrist, far, wrist, near, wrist, far, wrist, near];
       half = [wrist, wrist, wrist, wrist, wrist, wrist, far, wrist, near, wrist, far, wrist,
               near, wrist, near, wrist, far, wrist, near, wrist, far];
       flat = [wrist, wrist, wrist, wrist, wrist, wrist, near, wrist, far, wrist, near, wrist,
               far, wrist, near, wrist, far, wrist, near, wrist, far]
   in 21 \<le> length fist \<and> 21 \<le> length half \<and> 21 \<le> length flat
      \<and> foldedCount double_hypot fist = Inr 4
      \<and> gesture (fst (handFound double_hypot fist initialStore)) = Some CLOSED
      \<and> foldedCount double_hypot half = Inr 2
      \<and> gesture (fst (handFound double_hypot half initialStore)) = Some NEUTRAL
      \<and> foldedCount double_hypot flat = Inr 0
      \<and> gesture (fst (handFound double_hypot flat initialStore)) = Some OPEN"
proof -
  define wrist where "wrist = \<lparr>lm_x = 1, lm_y = 1, lm_z = 1 :: real\<rparr>"
  define near where "near = \<lparr>lm_x = 3, lm_y = 1, lm_z = 1 :: real\<rparr>"
  define far where "far = \<lparr>lm_x = 1, lm_y = 1, lm_z = 5 :: real\<rparr>"
  define fist where
    "fist = [wrist, wrist, wrist, wrist, wrist, wrist, far, wrist, near, wrist, far, wrist,
               near, wrist, far, wrist, near, wrist, far, wrist, near]"
  define half where
    "half = [wrist, wrist, wrist, wrist, wrist, wrist, far, wrist, near, wrist, far, wrist,
               near, wrist, near, wrist, far, wrist, near, wrist, far]"
  define flat where
    "flat = [wrist, wrist, wrist, wrist, wrist, wrist, near, wrist, far, wrist, near, wrist,
               far, wrist, near, wrist, far, wrist, near, wrist, far]"
  have len: "21 \<le> length fist" "21 \<le> length half" "21 \<le> length flat"
    by (simp_all add: fist_def half_def flat_def)
  have d: "wristDist double_hypot near wrist = 2" "wristDist double_hypot far wrist = 4"
    unfolding near_def far_def wrist_def by (rule wristDist_right, rule wristDist_behind)
  have n4: "length (filter (\<lambda>(tipIdx, pipIdx).
                wristDist double_hypot (fist ! tipIdx) (fist ! 0)
                  < wristDist double_hypot (fist ! pipIdx) (fist ! 0))
              [(8, 6), (12, 10), (16, 14), (20, 18)]) = 4"
    by (simp add: fist_def d)
  have n2: "length (filter (\<lambda>(tipIdx, pipIdx).
                wristDist double_hypot (half ! tipIdx) (half ! 0)
                  < wristDist double_hypot (half ! pipIdx) (half ! 0))
              [(8, 6), (12, 10), (16, 14), (20, 18)]) = 2"
    by (simp add: half_def d)
  have n0: "length (filter (\<lambda>(tipIdx, pipIdx).
                wristDist double_hypot (flat ! tipIdx) (flat ! 0)
                  < wristDist double_hypot (flat ! pipIdx) (flat ! 0))
              [(8, 6), (12, 10), (16, 14), (20, 18)]) = 0"
    by (simp add: flat_def d)
  from gesture_classifier [OF len(1), of double_hypot initialStore]
  have a: "foldedCount double_hypot fist = Inr 4
      \<and> gesture (fst (handFound double_hypot fist initialStore)) = Some CLOSED"
    unfolding wristDist_def [symmetric] double_sub_def [symmetric] n4
    by (auto simp: gestureOf_def)
  from gesture_classifier [OF len(2), of double_hypot initialStore]
  have b: "foldedCount double_hypot half = Inr 2
      \<and> gesture (fst (handFound double_hypot half initialStore)) = Some NEUTRAL"
    unfolding wristDist_def [symmetric] double_sub_def [symmetric] n2
    by (auto simp: gestureOf_def)
  from gesture_classifier [OF len(3), of double_hypot initialStore]
  have c: "foldedCount double_hypot flat = Inr 0
      \<and> gesture (fst (handFound double_hypot flat initialStore)) = Some OPEN"
    unfolding wristDist_def [symmetric] double_sub_def [symmetric] n0
    by (auto simp: gestureOf_def)
  from len a b c show ?thesis
    unfolding Let_def wrist_def [symmetric] near_def [symmetric] far_def [symmetric]
      fist_def [symmetric] half_def [symmetric] flat_def [symmetric]
    by simp
qed

theorem gesture_near_tie_counterexample:
  "let wrist = \<lparr>lm_x = 0, lm_y = 0, lm_z = 0\<rparr>;
       tip = \<lparr>lm_x = 1, lm_y = 0, lm_z = 0\<rparr>;
       pip = \<lparr>lm_x = 1, lm_y = 1 / 2 ^ 30, lm_z = 0\<rparr>;
       hand = [wrist, wrist, wrist, wrist, wrist, wrist, pip, wrist, tip, wrist, pip, wrist,
               tip, wrist, pip, wrist, tip, wrist, pip, wrist, tip]
   in length hand = 21
      \<and> length (filter (\<lambda>(tipIdx, pipIdx).
            sqrt ((lm_x (hand ! tipIdx) - lm_x (hand ! 0))\<^sup>2
                  + (lm_y (hand ! tipIdx) - lm_y (hand ! 0))\<^sup>2
                  + (lm_z (hand ! tipIdx) - lm_z (hand ! 0))\<^sup>2)
            < sqrt ((lm_x (hand ! pipIdx) - lm_x (hand ! 0))\<^sup>2
                    + (lm_y (hand ! pipIdx) - lm_y (hand ! 0))\<^sup>2
                    + (lm_z (hand ! pipIdx) - lm_z (hand ! 0))\<^sup>2))
          [(8, 6), (12, 10), (16, 14), (20, 18)]) = 4
      \<and> foldedCount double_hypot hand = Inr 0
      \<and> gesture (fst (handFound double_hypot hand initialStore)) = Some OPEN
      \<and> gesture (fst (handFound double_hypot hand initialStore)) \<noteq> Some CLOSED"
proof -
  define wrist where "wrist = \<lparr>lm_x = 0, lm_y = 0, lm_z = 0 :: real\<rparr>"
  define tip where "tip = \<lparr>lm_x = 1, lm_y = 0, lm_z = 0 :: real\<rparr>"
  define pip where "pip = \<lparr>lm_x = 1, lm_y = 1 / 2 ^ 30, lm_z = 0 :: real\<rparr>"
  define hand where
    "hand = [wrist, wrist, wrist, wrist, wrist, wrist, pip, wrist, tip, wrist, pip, wrist,
               tip, wrist, pip, wrist, tip, wrist, pip, wrist, tip]"
  have len: "length hand = 21" by (simp add: hand_def)
  then have len': "21 \<le> length hand" by simp
  have d: "wristDist double_hypot tip wrist = 1" "wristDist double_hypot pip wrist = 1"
    unfolding tip_def pip_def wrist_def by (rule wristDist_tip_tie, rule wristDist_pip_tie)
  have closer: "length (filter (\<lambda>(tipIdx, pipIdx).
            sqrt ((lm_x (hand ! tipIdx) - lm_x (hand ! 0))\<^sup>2
                  + (lm_y (hand ! tipIdx) - lm_y (hand ! 0))\<^sup>2
                  + (lm_z (hand ! tipIdx) - lm_z (hand ! 0))\<^sup>2)
            < sqrt ((lm_x (hand ! pipIdx) - lm_x (hand ! 0))\<^sup>2
                    + (lm_y (hand ! pipIdx) - lm_y (hand ! 0))\<^sup>2
                    + (lm_z (hand ! pipIdx) - lm_z (hand ! 0))\<^sup>2))
          [(8, 6), (12, 10), (16, 14), (20, 18)]) = 4"
    by (simp add: hand_def wrist_def tip_def pip_def)
  have n0: "length (filter (\<lambda>(tipIdx, pipIdx).
                wristDist double_hypot (hand ! tipIdx) (hand ! 0)
                  < wristDist double_hypot (hand ! pipIdx) (hand ! 0)) fingers) = 0"
    by (simp add: hand_def fingers_def d)
  have count: "foldedCount double_hypot hand = Inr 0"
    by (simp only: foldedCount_in [OF len'] n0)
  have g: "gesture (fst (handFound double_hypot hand initialStore)) = Some OPEN"
    by (simp add: handFound_ok [OF len'] n0 gestureOf_def)
  from len closer count g show ?thesis
    unfolding Let_def wrist_def [symmetric] tip_def [symmetric] pip_def [symmetric]
      hand_def [symmetric]
    by simp
qed

section \<open>The tracker's writes to the store\<close>

lemma predictWebcam_noHand:
  assumes "trackerReady f" "currentTime f \<noteq> lastVideoTime t"
    "results_landmarks f = None \<or> results_landmarks f = Some []"
  shows "predictWebcam Math_hypot f t =
    (\<lparr>store = (store t)\<lparr>handPosition := None, isHandDetected := False, gesture := None\<rparr>,
      lastVideoTime = currentTime f\<rparr>, None)"
  using assms by (auto simp: predictWebcam_def noHand_def setGesture_def setHandPosition_def
      setIsHandDetected_def Let_def)

lemma predictWebcam_agree:
  assumes "(\<not> isHandDetected (store t)) = (handPosition (store t) = None \<and> gesture (store t) = None)"
    and "wellFormedFrame f"
  shows "(\<not> isHandDetected (store (fst (predictWebcam Math_hypot f t)))) =
           (handPosition (store (fst (predictWebcam Math_hypot f t))) = None
            \<and> gesture (store (fst (predictWebcam Math_hypot f t))) = None)
         \<and> snd (predictWebcam Math_hypot f t) = None"
proof (cases "trackerReady f \<and> currentTime f \<noteq> lastVideoTime t")
  case False
  then show ?thesis using assms(1) by (auto simp: predictWebcam_def)
next
  case True
  show ?thesis
  proof (cases "results_landmarks f")
    case None
    then show ?thesis using True by (simp add: predictWebcam_noHand)
  next
    case (Some hands)
    show ?thesis
    proof (cases hands)
      case Nil
      then show ?thesis using True Some by (simp add: predictWebcam_noHand)
    next
      case (Cons h hs)
      with assms(2) Some have "21 \<le> length h" by simp
      from handFound_ok [OF this, of Math_hypot] show ?thesis
        using True Some Cons by (simp add: predictWebcam_def)
    qed
  qed
qed

lemma trackerRun_agree:
  "(\<not> isHandDetected (store t)) = (handPosition (store t) = None \<and> gesture (store t) = None) \<Longrightarrow>
   list_all wellFormedFrame fs \<Longrightarrow>
   (\<not> isHandDetected (store (fst (trackerRun Math_hypot fs t)))) =
      (handPosition (store (fst (trackerRun Math_hypot fs t))) = None
       \<and> gesture (store (fst (trackerRun Math_hypot fs t))) = None)
   \<and> snd (trackerRun Math_hypot fs t) = None"
proof (induction fs arbitrary: t)
  case Nil
  then show ?case by simp
next
  case (Cons f fs)
  from Cons.prems have wf: "wellFormedFrame f" and rest: "list_all wellFormedFrame fs"
    by simp_all
  obtain t' e where step: "predictWebcam Math_hypot f t = (t', e)"
    by (cases "predictWebcam Math_hypot f t")
  from predictWebcam_agree [OF Cons.prems(1) wf, of Math_hypot] step
  have "(\<not> isHandDetected (store t')) = (handPosition (store t') = None \<and> gesture (store t') = None)"
    and "e = None"
    by simp_all
  with Cons.IH [OF _ rest, of t'] step show ?case by simp
qed

text \<open>
  C8. A frame with a new video time in which no hand is found sets the position to
  null, the detection flag to false and the gesture to null, and changes nothing else
  of the store. Over any run of well-formed frames, from the initial store or from any
  store in which the three fields agree, the detection flag is false exactly when the
  position and the gesture are both null, and no call throws. This holds for every
  implementation of \<open>Math.hypot\<close>.
\<close>

theorem tracker_clears_hand_fields:
  "(trackerReady f \<and> currentTime f \<noteq> lastVideoTime t
      \<and> (results_landmarks f = None \<or> results_landmarks f = Some [])
    \<longrightarrow> predictWebcam Math_hypot f t =
          (\<lparr>store = (store t)\<lparr>handPosition := None, isHandDetected := False, gesture := None\<rparr>,
            lastVideoTime = currentTime f\<rparr>, None))
   \<and> (list_all wellFormedFrame fs
        \<and> (\<not> isHandDetected (store t)) = (handPosition (store t) = None \<and> gesture (store t) = None)
      \<longrightarrow> (\<not> isHandDetected (store (fst (trackerRun Math_hypot fs t)))) =
            (handPosition (store (fst (trackerRun Math_hypot fs t))) = None
             \<and> gesture (store (fst (trackerRun Math_hypot fs t))) = None)
          \<and> snd (trackerRun Math_hypot fs t) = None)
   \<and> (list_all wellFormedFrame fs
      \<longrightarrow> (\<not> isHandDetected (store (fst (trackerRun Math_hypot fs initialTracker)))) =
            (handPosition (store (fst (trackerRun Math_hypot fs initialTracker))) = None
             \<and> gesture (store (fst (trackerRun Math_hypot fs initialTracker))) = None)
          \<and> snd (trackerRun Math_hypot fs initialTracker) = None)"
proof -
  have init: "(\<not> isHandDetected (store initialTracker)) =
      (handPosition (store initialTracker) = None \<and> gesture (store initialTracker) = None)"
    by (simp add: initialTracker_def initialStore_def)
  show ?thesis
    using predictWebcam_noHand [of f t Math_hypot] trackerRun_agree [of t fs Math_hypot] trackerRun_agree [OF init, of fs Math_hypot]
    by blast
qed

theorem tracker_clears_hand_fields_witness:
  "let P = (\<lambda>d. \<lparr>lm_x = d, lm_y = 0, lm_z = 0\<rparr>);
       fist = [P 0, P 2, P 2, P 2, P 2, P 2, P 2, P 2, P 1, P 2, P 2, P 2, P 1,
               P 2, P 2, P 2, P 1, P 2, P 2, P 2, P 1];
       seen = \<lparr>trackerReady = True, currentTime = 0, results_landmarks = Some [fist]\<rparr>;
       gone = \<lparr>trackerReady = True, currentTime = 1, results_landmarks = Some []\<rparr>;
       t = fst (predictWebcam double_hypot seen initialTracker)
   in list_all wellFormedFrame [seen, gone]
      \<and> isHandDetected (store t) \<and> gesture (store t) = Some CLOSED
      \<and> handPosition (store t) = Some \<lparr>v3_x = - 5, v3_y = 4, v3_z = 0\<rparr>
      \<and> lastVideoTime t = 0
      \<and> predictWebcam double_hypot gone t = (\<lparr>store = initialStore, lastVideoTime = 1\<rparr>, None)
      \<and> \<not> isHandDetected (store (fst (trackerRun double_hypot [seen, gone] initialTracker)))
      \<and> handPosition (store (fst (trackerRun double_hypot [seen, gone] initialTracker))) = None
      \<and> gesture (store (fst (trackerRun double_hypot [seen, gone] initialTracker))) = None"
proof -
  define fist where "fist = (let P = (\<lambda>d. \<lparr>lm_x = d, lm_y = 0, lm_z = 0\<rparr>) in
       [P 0, P 2, P 2, P 2, P 2, P 2, P 2, P 2, P 1, P 2, P 2, P 2, P 1,
               P 2, P 2, P 2, P 1, P 2, P 2, P 2, P (1::real)])"
  define seen where "seen = \<lparr>trackerReady = True, currentTime = 0, results_landmarks = Some [fist]\<rparr>"
  define gone where
    "gone = \<lparr>trackerReady = True, currentTime = 1, results_landmarks = Some ([] :: NormalizedLandmark list list)\<rparr>"
  define t where "t = fst (predictWebcam double_hypot seen initialTracker)"
  have len: "21 \<le> length fist" by (simp add: fist_def)
  have wf: "list_all wellFormedFrame [seen, gone]"
    using len by (simp add: seen_def gone_def)
  have n: "length (filter (\<lambda>(tipIdx, pipIdx).
                wristDist double_hypot (fist ! tipIdx) (fist ! 0)
                  < wristDist double_hypot (fist ! pipIdx) (fist ! 0))
              fingers) = 4"
    by (simp add: fist_def fingers_def wristDist_tip_tie wristDist_two)
  have tip: "fist ! 8 = \<lparr>lm_x = 1, lm_y = 0, lm_z = 0\<rparr>" by (simp add: fist_def)
  have t_eq: "t = \<lparr>store = initialStore\<lparr>isHandDetected := True,
        handPosition := Some \<lparr>v3_x = - 5, v3_y = 4, v3_z = 0\<rparr>,
        gesture := Some CLOSED\<rparr>, lastVideoTime = 0\<rparr>"
    unfolding t_def
    by (simp add: predictWebcam_def seen_def initialTracker_def handFound_ok [OF len] n tip
        gestureOf_def)
  have hyp1: "trackerReady gone \<and> currentTime gone \<noteq> lastVideoTime t
      \<and> (results_landmarks gone = None \<or> results_landmarks gone = Some [])"
    by (simp add: gone_def t_eq)
  from tracker_clears_hand_fields [of gone t double_hypot "[seen, gone]"] hyp1 wf
  have step: "predictWebcam double_hypot gone t =
          (\<lparr>store = (store t)\<lparr>handPosition := None, isHandDetected := False, gesture := None\<rparr>,
            lastVideoTime = currentTime gone\<rparr>, None)"
    and run: "(\<not> isHandDetected (store (fst (trackerRun double_hypot [seen, gone] initialTracker)))) =
            (handPosition (store (fst (trackerRun double_hypot [seen, gone] initialTracker))) = None
             \<and> gesture (store (fst (trackerRun double_hypot [seen, gone] initialTracker))) = None)"
    by blast+
  have step': "predictWebcam double_hypot gone t = (\<lparr>store = initialStore, lastVideoTime = 1\<rparr>, None)"
    unfolding step by (simp add: t_eq gone_def initialStore_def)
  have seen_step: "predictWebcam double_hypot seen initialTracker = (t, None)"
    unfolding t_def
    by (simp add: predictWebcam_def seen_def initialTracker_def handFound_ok [OF len])
  have ready: "trackerReady seen" "trackerReady gone"
    by (simp_all add: seen_def gone_def)
  have off: "\<not> isHandDetected (store (fst (trackerRun double_hypot [seen, gone] initialTracker)))"
    by (simp add: seen_step step' ready initialStore_def)
  from off run wf step' show ?thesis
    unfolding Let_def fist_def [symmetric, unfolded Let_def] seen_def [symmetric] gone_def [symmetric]
      t_def [symmetric]
    by (simp add: t_eq)
qed

section \<open>Lemmas on the frame callback\<close>

lemma currentScale_clampAndRotate [simp]: "currentScale (clampAndRotate r) = currentScale r"
  by (simp add: clampAndRotate_def Let_def)

lemma currentScale_handBranch [simp]: "currentScale (handBranch p h r) = currentScale r"
  by (simp add: handBranch_def Let_def)

lemma currentScale_idleBranch [simp]: "currentScale (idleBranch p r) = currentScale r"
  by (simp add: idleBranch_def Let_def)

lemma clamp_abs: "abs (clamp v (- MAX_SPEED) MAX_SPEED) \<le> MAX_SPEED"
  by (auto simp: clamp_def MAX_SPEED_def max_def min_def abs_if)

lemma currentScale_expansionPhysics:
  "currentScale (expansionPhysics p r) =
     lerp (currentScale r) (targetScale (isHandDetected (props p)) (gesture (props p))) LERP_SPEED"
  by (simp add: expansionPhysics_def Let_def)

lemma uExpansion_expansionPhysics:
  "materialMounted p \<Longrightarrow> uExpansion (expansionPhysics p r) = currentScale (expansionPhysics p r)"
  by (simp add: expansionPhysics_def Let_def)

lemma momentum_expansionPhysics [simp]: "momentum (expansionPhysics p r) = momentum r"
  by (simp add: expansionPhysics_def Let_def)

lemma uInteractRadius_expansionPhysics [simp]:
  "uInteractRadius (expansionPhysics p r) = uInteractRadius r"
  by (simp add: expansionPhysics_def Let_def)

lemma lastHandPos_expansionPhysics [simp]: "lastHandPos (expansionPhysics p r) = lastHandPos r"
  by (simp add: expansionPhysics_def Let_def)

lemma currentScale_rotationPhysics [simp]: "currentScale (rotationPhysics p r) = currentScale r"
  by (simp add: rotationPhysics_def split: option.split bool.split)

lemma uExpansion_rotationPhysics [simp]: "uExpansion (rotationPhysics p r) = uExpansion r"
  by (simp add: rotationPhysics_def clampAndRotate_def handBranch_def idleBranch_def Let_def
      split: option.split bool.split)

lemma useFrame_currentScale:
  "currentScale (useFrame p r) =
     lerp (currentScale r) (targetScale (isHandDetected (props p)) (gesture (props p))) LERP_SPEED"
  by (simp add: useFrame_def Let_def currentScale_expansionPhysics)

lemma useFrame_uExpansion:
  "materialMounted p \<Longrightarrow> uExpansion (useFrame p r) = currentScale (useFrame p r)"
  by (simp add: useFrame_def Let_def uExpansion_expansionPhysics)

lemma momentum_clampAndRotate:
  "momentum (clampAndRotate r) =
     \<lparr>v2_x = clamp (v2_x (momentum r)) (- MAX_SPEED) MAX_SPEED,
      v2_y = clamp (v2_y (momentum r)) (- MAX_SPEED) MAX_SPEED\<rparr>"
  by (simp add: clampAndRotate_def Let_def)

lemma momentum_idleBranch:
  "momentum (idleBranch p r) =
     \<lparr>v2_x = snap (v2_x (momentum r) * FRICTION), v2_y = snap (v2_y (momentum r) * FRICTION)\<rparr>"
  by (simp add: idleBranch_def Let_def)

lemma useFrame_idle_momentum:
  "noHandFrame p \<Longrightarrow>
   momentum (useFrame p r) =
     \<lparr>v2_x = clamp (snap (v2_x (momentum r) * FRICTION)) (- MAX_SPEED) MAX_SPEED,
      v2_y = clamp (snap (v2_y (momentum r) * FRICTION)) (- MAX_SPEED) MAX_SPEED\<rparr>"
  by (simp add: useFrame_def Let_def rotationPhysics_def momentum_clampAndRotate momentum_idleBranch)

lemma useFrame_momentum_bounded:
  "meshMounted p \<Longrightarrow>
   abs (v2_x (momentum (useFrame p r))) \<le> MAX_SPEED \<and> abs (v2_y (momentum (useFrame p r))) \<le> MAX_SPEED"
  by (simp add: useFrame_def Let_def rotationPhysics_def momentum_clampAndRotate clamp_abs)

lemma clamp_abs_le: "abs (clamp v (- MAX_SPEED) MAX_SPEED) \<le> abs v"
  by (auto simp: clamp_def MAX_SPEED_def max_def min_def abs_if)

lemma clamp_id: "abs v \<le> MAX_SPEED \<Longrightarrow> clamp v (- MAX_SPEED) MAX_SPEED = v"
  unfolding clamp_def MAX_SPEED_def by arith

lemma snap_abs_le: "abs (snap v) \<le> abs v"
  by (simp add: snap_def)

lemma decay_le: "abs (clamp (snap (m * FRICTION)) (- MAX_SPEED) MAX_SPEED) \<le> abs m * FRICTION"
proof -
  have "abs (clamp (snap (m * FRICTION)) (- MAX_SPEED) MAX_SPEED) \<le> abs (snap (m * FRICTION))"
    by (rule clamp_abs_le)
  also have "\<dots> \<le> abs (m * FRICTION)" by (rule snap_abs_le)
  also have "\<dots> = abs m * FRICTION" by (simp add: abs_mult FRICTION_def)
  finally show ?thesis .
qed

lemma decay_strict:
  "m \<noteq> 0 \<Longrightarrow> abs (clamp (snap (m * FRICTION)) (- MAX_SPEED) MAX_SPEED) < abs m"
proof -
  assume "m \<noteq> 0"
  then have "abs m * FRICTION < abs m" by (simp add: FRICTION_def)
  with decay_le [of m] show ?thesis by linarith
qed

lemma decay_zero:
  "abs (m * FRICTION) < 0.0001 \<Longrightarrow> clamp (snap (m * FRICTION)) (- MAX_SPEED) MAX_SPEED = 0"
  by (simp add: snap_def clamp_def MAX_SPEED_def)

lemma decay_in_range:
  "abs m \<le> MAX_SPEED \<Longrightarrow>
   clamp (snap (m * FRICTION)) (- MAX_SPEED) MAX_SPEED = snap (m * FRICTION)"
proof -
  assume a: "abs m \<le> MAX_SPEED"
  have "abs (snap (m * FRICTION)) \<le> abs (m * FRICTION)" by (rule snap_abs_le)
  also have "\<dots> = abs m * FRICTION" by (simp add: abs_mult FRICTION_def)
  also have "\<dots> \<le> abs m" by (simp add: FRICTION_def)
  finally show ?thesis using a by (intro clamp_id) linarith
qed

lemma frames_append: "frames (ps @ qs) r = frames qs (frames ps r)"
  by (induction ps arbitrary: r) simp_all

lemma idle_frames_le:
  "list_all noHandFrame ps \<Longrightarrow>
   abs (v2_x (momentum (frames ps r))) \<le> abs (v2_x (momentum r)) * FRICTION ^ length ps \<and>
   abs (v2_y (momentum (frames ps r))) \<le> abs (v2_y (momentum r)) * FRICTION ^ length ps"
proof (induction ps arbitrary: r)
  case Nil
  then show ?case by simp
next
  case (Cons p ps)
  from Cons.prems have p: "noHandFrame p" and ps: "list_all noHandFrame ps" by simp_all
  have f0: "(0::real) \<le> FRICTION ^ length ps" by (simp add: FRICTION_def)
  have x: "abs (v2_x (momentum (useFrame p r))) \<le> abs (v2_x (momentum r)) * FRICTION"
    and y: "abs (v2_y (momentum (useFrame p r))) \<le> abs (v2_y (momentum r)) * FRICTION"
    by (simp_all add: useFrame_idle_momentum [OF p] decay_le)
  from Cons.IH [OF ps, of "useFrame p r"]
  have "abs (v2_x (momentum (frames (p # ps) r)))
          \<le> abs (v2_x (momentum (useFrame p r))) * FRICTION ^ length ps"
    and "abs (v2_y (momentum (frames (p # ps) r)))
          \<le> abs (v2_y (momentum (useFrame p r))) * FRICTION ^ length ps"
    by simp_all
  moreover have "abs (v2_x (momentum (useFrame p r))) * FRICTION ^ length ps
      \<le> (abs (v2_x (momentum r)) * FRICTION) * FRICTION ^ length ps"
    by (rule mult_right_mono [OF x f0])
  moreover have "abs (v2_y (momentum (useFrame p r))) * FRICTION ^ length ps
      \<le> (abs (v2_y (momentum r)) * FRICTION) * FRICTION ^ length ps"
    by (rule mult_right_mono [OF y f0])
  ultimately show ?case by (simp add: mult.assoc)
qed

lemma p7: "FRICTION ^ 7 \<le> 0.8681256"
  by (simp add: FRICTION_def power_divide)

lemma p35: "FRICTION ^ 35 \<le> 0.4930749"
proof -
  have "FRICTION ^ 35 = (FRICTION ^ 7) ^ 5" by (simp add: power_mult [symmetric])
  also have "\<dots> \<le> 0.8681256 ^ 5" by (rule power_mono [OF p7]) (simp add: FRICTION_def)
  also have "\<dots> \<le> 0.4930749" by (simp add: power_divide)
  finally show ?thesis .
qed

lemma p105: "FRICTION ^ 105 \<le> 0.1198778"
proof -
  have "FRICTION ^ 105 = (FRICTION ^ 35) ^ 3" by (simp add: power_mult [symmetric])
  also have "\<dots> \<le> 0.4930749 ^ 3" by (rule power_mono [OF p35]) (simp add: FRICTION_def)
  also have "\<dots> \<le> 0.1198778" by (simp add: power_divide)
  finally show ?thesis .
qed

lemma p420: "FRICTION ^ 420 \<le> 0.000206517"
proof -
  have "FRICTION ^ 420 = (FRICTION ^ 105) ^ 4" by (simp add: power_mult [symmetric])
  also have "\<dots> \<le> 0.1198778 ^ 4" by (rule power_mono [OF p105]) (simp add: FRICTION_def)
  also have "\<dots> \<le> 0.000206517" by (simp add: power_divide)
  finally show ?thesis .
qed

lemma p422: "MAX_SPEED * FRICTION ^ 422 < 0.0001"
proof -
  have "FRICTION ^ 422 = FRICTION ^ 420 * FRICTION ^ 2" by (simp add: power_add [symmetric])
  also have "\<dots> \<le> 0.000206517 * FRICTION ^ 2"
    by (rule mult_right_mono [OF p420]) simp
  finally show ?thesis by (simp add: MAX_SPEED_def FRICTION_def power2_eq_square)
qed

lemma lerp_alt: "lerp x y t = x + t * (y - x)"
  by (simp add: lerp_def algebra_simps)

lemma lerp_same: "lerp s s t = s"
  by (simp add: lerp_def algebra_simps)

lemma frames_currentScale_fixed:
  "list_all (\<lambda>p. targetScale (isHandDetected (props p)) (gesture (props p)) = currentScale r) ps \<Longrightarrow>
   currentScale (frames ps r) = currentScale r"
proof (induction ps arbitrary: r)
  case Nil
  then show ?case by simp
next
  case (Cons p ps)
  from Cons.prems have p: "targetScale (isHandDetected (props p)) (gesture (props p)) = currentScale r"
    and ps: "list_all (\<lambda>p. targetScale (isHandDetected (props p)) (gesture (props p)) = currentScale r) ps"
    by simp_all
  have keep: "currentScale (useFrame p r) = currentScale r"
    by (simp add: useFrame_currentScale p lerp_same)
  from Cons.IH [of "useFrame p r"] ps keep show ?case by simp
qed

lemma Vector2_length_bound:
  assumes "abs (v2_x v) \<le> MAX_SPEED" "abs (v2_y v) \<le> MAX_SPEED"
  shows "Vector2_length v \<le> MAX_SPEED * sqrt 2"
proof -
  have x: "v2_x v * v2_x v \<le> MAX_SPEED * MAX_SPEED"
    using mult_mono [of "abs (v2_x v)" MAX_SPEED "abs (v2_x v)" MAX_SPEED] assms(1)
    by (simp add: MAX_SPEED_def)
  have y: "v2_y v * v2_y v \<le> MAX_SPEED * MAX_SPEED"
    using mult_mono [of "abs (v2_y v)" MAX_SPEED "abs (v2_y v)" MAX_SPEED] assms(2)
    by (simp add: MAX_SPEED_def)
  have "Vector2_length v \<le> sqrt (2 * (MAX_SPEED * MAX_SPEED))"
    unfolding Vector2_length_def using x y by (intro real_sqrt_le_mono) linarith
  also have "\<dots> = sqrt 2 * abs MAX_SPEED"
    by (simp add: real_sqrt_mult)
  also have "\<dots> = MAX_SPEED * sqrt 2"
    by (simp add: MAX_SPEED_def)
  finally show ?thesis .
qed

section \<open>Scale smoothing\<close>

text \<open>
  C5. On every frame the target scale is 0.4 for a detected hand with gesture CLOSED,
  1.3 for a detected hand with gesture OPEN, and 1.0 when the gesture is NEUTRAL or
  null or no hand is detected; the new current scale is the lerp of the old one toward
  that target with factor 0.12, that is the old scale plus 0.12 times the difference,
  and it is what the expansion uniform receives.
\<close>

theorem scale_target_and_blend:
  "(isHandDetected (props p) \<and> gesture (props p) = Some CLOSED
      \<longrightarrow> targetScale (isHandDetected (props p)) (gesture (props p)) = 0.4)
   \<and> (isHandDetected (props p) \<and> gesture (props p) = Some OPEN
      \<longrightarrow> targetScale (isHandDetected (props p)) (gesture (props p)) = 1.3)
   \<and> (gesture (props p) = Some NEUTRAL \<or> gesture (props p) = None \<or> \<not> isHandDetected (props p)
      \<longrightarrow> targetScale (isHandDetected (props p)) (gesture (props p)) = 1.0)
   \<and> currentScale (useFrame p r) =
       lerp (currentScale r) (targetScale (isHandDetected (props p)) (gesture (props p))) 0.12
   \<and> currentScale (useFrame p r) =
       currentScale r
         + 0.12 * (targetScale (isHandDetected (props p)) (gesture (props p)) - currentScale r)
   \<and> (materialMounted p \<longrightarrow> uExpansion (useFrame p r) = currentScale (useFrame p r))"
proof -
  have "currentScale (useFrame p r) =
       lerp (currentScale r) (targetScale (isHandDetected (props p)) (gesture (props p))) 0.12"
    by (simp add: useFrame_currentScale LERP_SPEED_def)
  moreover have "lerp (currentScale r) (targetScale (isHandDetected (props p)) (gesture (props p))) 0.12
      = currentScale r
         + 0.12 * (targetScale (isHandDetected (props p)) (gesture (props p)) - currentScale r)"
    by (rule lerp_alt)
  ultimately show ?thesis
    by (auto simp: targetScale_def useFrame_uExpansion)
qed

theorem scale_target_and_blend_witness:
  "let frame = (\<lambda>d g. \<lparr>elapsedTime = 0,
                  props = initialStore\<lparr>isHandDetected := d, gesture := g\<rparr>,
                  meshMounted = True, materialMounted = True, worldToLocal = (\<lambda>v. v)\<rparr>);
       r = initialRender DEFAULT_CONFIG
   in currentScale r = 1
      \<and> currentScale (useFrame (frame True (Some OPEN)) r) = 1.036
      \<and> uExpansion (useFrame (frame True (Some OPEN)) r) = 1.036
      \<and> currentScale (useFrame (frame True (Some CLOSED)) r) = 0.928
      \<and> currentScale (useFrame (frame True (Some NEUTRAL)) r) = 1
      \<and> currentScale (useFrame (frame False None) r) = 1
      \<and> currentScale (frames [frame False None, frame True (Some OPEN), frame True (Some OPEN),
            frame True (Some CLOSED), frame False None] r) = 0.989051392"
proof -
  define frame where "frame = (\<lambda>d g. \<lparr>elapsedTime = 0,
                  props = initialStore\<lparr>isHandDetected := d, gesture := g\<rparr>,
                  meshMounted = True, materialMounted = True, worldToLocal = (\<lambda>v::Vector3. v)\<rparr>)"
  define r where "r = initialRender DEFAULT_CONFIG"
  have r1: "currentScale r = 1" by (simp add: r_def initialRender_def)
  have pr: "\<And>d g. isHandDetected (props (frame d g)) = d" "\<And>d g. gesture (props (frame d g)) = g"
    "\<And>d g. materialMounted (frame d g)"
    by (simp_all add: frame_def)
  have a: "currentScale (useFrame (frame True (Some OPEN)) r) = 1.036"
    "uExpansion (useFrame (frame True (Some OPEN)) r) = 1.036"
    using scale_target_and_blend [of "frame True (Some OPEN)" r] by (simp_all add: pr r1 targetScale_def lerp_def)
  have b: "currentScale (useFrame (frame True (Some CLOSED)) r) = 0.928"
    using scale_target_and_blend [of "frame True (Some CLOSED)" r] by (simp add: pr r1 targetScale_def lerp_def)
  have c: "currentScale (useFrame (frame True (Some NEUTRAL)) r) = 1"
    using scale_target_and_blend [of "frame True (Some NEUTRAL)" r] by (simp add: pr r1 targetScale_def lerp_def)
  have d: "currentScale (useFrame (frame False None) r) = 1"
    using scale_target_and_blend [of "frame False None" r] by (simp add: pr r1 targetScale_def lerp_def)
  have e: "currentScale (frames [frame False None, frame True (Some OPEN), frame True (Some OPEN),
            frame True (Some CLOSED), frame False None] r) = 0.989051392"
    by (simp add: useFrame_currentScale pr r1 targetScale_def lerp_def LERP_SPEED_def)
  from r1 a b c d e show ?thesis
    unfolding Let_def frame_def [symmetric] r_def [symmetric] by simp
qed

text \<open>
  C6. One lerp step of \<open>s\<close> toward \<open>s\<close> with factor 0.12 returns \<open>s\<close>; so a frame
  whose target equals the current scale leaves the scale unchanged, and so does every
  run of frames whose targets all equal it.
\<close>

theorem scale_fixed_point:
  "lerp s s LERP_SPEED = s \<and> LERP_SPEED = 0.12
   \<and> (currentScale r = targetScale (isHandDetected (props p)) (gesture (props p))
      \<longrightarrow> currentScale (useFrame p r) = currentScale r)
   \<and> (list_all (\<lambda>p. targetScale (isHandDetected (props p)) (gesture (props p)) = currentScale r) ps
      \<longrightarrow> currentScale (frames ps r) = currentScale r)"
proof -
  show ?thesis
    by (simp add: useFrame_currentScale lerp_same frames_currentScale_fixed) (simp add: LERP_SPEED_def)
qed

theorem scale_fixed_point_witness:
  "let open_hand = \<lparr>elapsedTime = 0,
                  props = initialStore\<lparr>isHandDetected := True, gesture := Some OPEN\<rparr>,
                  meshMounted = True, materialMounted = True, worldToLocal = (\<lambda>v. v)\<rparr>;
       r = (initialRender DEFAULT_CONFIG)\<lparr>currentScale := 1.3\<rparr>
   in currentScale r = targetScale (isHandDetected (props open_hand)) (gesture (props open_hand))
      \<and> lerp 1.3 1.3 LERP_SPEED = 1.3
      \<and> currentScale (useFrame open_hand r) = 1.3
      \<and> currentScale (frames [open_hand, open_hand, open_hand] r) = 1.3"
proof -
  define open_hand where "open_hand = \<lparr>elapsedTime = 0,
                  props = initialStore\<lparr>isHandDetected := True, gesture := Some OPEN\<rparr>,
                  meshMounted = True, materialMounted = True, worldToLocal = (\<lambda>v::Vector3. v)\<rparr>"
  define r where "r = (initialRender DEFAULT_CONFIG)\<lparr>currentScale := 1.3\<rparr>"
  have t: "currentScale r = targetScale (isHandDetected (props open_hand)) (gesture (props open_hand))"
    by (simp add: r_def open_hand_def targetScale_def)
  have r13: "currentScale r = 1.3" by (simp add: r_def)
  from scale_fixed_point [of "1.3" r open_hand "[open_hand, open_hand, open_hand]"] t
  have "lerp 1.3 1.3 LERP_SPEED = 1.3 \<and> currentScale (useFrame open_hand r) = 1.3
      \<and> currentScale (frames [open_hand, open_hand, open_hand] r) = 1.3"
    by (simp add: r13)
  with t show ?thesis
    unfolding Let_def open_hand_def [symmetric] r_def [symmetric] by simp
qed


section \<open>The momentum clamp\<close>

text \<open>
  C2, as amended. The clamping step bounds each component of the momentum by
  \<open>MAX_SPEED = 0.5\<close> in absolute value, whatever the hand velocity and the prior
  momentum were, so that the magnitude of the vector is at most \<open>MAX_SPEED * sqrt 2\<close>;
  this holds after every frame rendered with the mesh mounted. The magnitude itself
  can exceed \<open>MAX_SPEED\<close>: after a fast diagonal move of the hand it is \<open>sqrt (1/2)\<close>.
\<close>

theorem momentum_clamped_per_axis:
  "MAX_SPEED = 0.5
   \<and> abs (v2_x (momentum (clampAndRotate r))) \<le> MAX_SPEED
   \<and> abs (v2_y (momentum (clampAndRotate r))) \<le> MAX_SPEED
   \<and> Vector2_length (momentum (clampAndRotate r)) \<le> MAX_SPEED * sqrt 2
   \<and> (meshMounted p
      \<longrightarrow> abs (v2_x (momentum (useFrame p r))) \<le> MAX_SPEED
        \<and> abs (v2_y (momentum (useFrame p r))) \<le> MAX_SPEED
        \<and> Vector2_length (momentum (useFrame p r)) \<le> MAX_SPEED * sqrt 2)"
proof -
  have c: "abs (v2_x (momentum (clampAndRotate r))) \<le> MAX_SPEED"
    "abs (v2_y (momentum (clampAndRotate r))) \<le> MAX_SPEED"
    by (simp_all add: momentum_clampAndRotate clamp_abs)
  show ?thesis
    using c Vector2_length_bound [OF c] useFrame_momentum_bounded [of p r]
      Vector2_length_bound [of "momentum (useFrame p r)"]
    by (simp add: MAX_SPEED_def)
qed

theorem momentum_clamped_per_axis_witness:
  "let left = \<lparr>elapsedTime = 0,
         props = initialStore\<lparr>isHandDetected := True,
                   handPosition := Some \<lparr>v3_x = - 5, v3_y = - 4, v3_z = 0\<rparr>\<rparr>,
         meshMounted = True, materialMounted = True, worldToLocal = (\<lambda>v. v)\<rparr>;
       right = left\<lparr>props := initialStore\<lparr>isHandDetected := True,
                   handPosition := Some \<lparr>v3_x = 5, v3_y = 4, v3_z = 0\<rparr>\<rparr>\<rparr>;
       r = useFrame left (initialRender DEFAULT_CONFIG)
   in meshMounted right
      \<and> momentum (useFrame right r) = \<lparr>v2_x = - 0.5, v2_y = 0.5\<rparr>
      \<and> abs (v2_x (momentum (useFrame right r))) \<le> 0.5
      \<and> abs (v2_y (momentum (useFrame right r))) \<le> 0.5
      \<and> Vector2_length (momentum (useFrame right r)) \<le> 0.5 * sqrt 2"
proof -
  define left where "left = \<lparr>elapsedTime = 0,
         props = initialStore\<lparr>isHandDetected := True,
                   handPosition := Some \<lparr>v3_x = - 5, v3_y = - 4, v3_z = 0\<rparr>\<rparr>,
         meshMounted = True, materialMounted = True, worldToLocal = (\<lambda>v::Vector3. v)\<rparr>"
  define right where "right = left\<lparr>props := initialStore\<lparr>isHandDetected := True,
                   handPosition := Some \<lparr>v3_x = 5, v3_y = 4, v3_z = 0\<rparr>\<rparr>\<rparr>"
  define r where "r = useFrame left (initialRender DEFAULT_CONFIG)"
  have m: "meshMounted right" by (simp add: right_def left_def)
  have r_m: "momentum r = \<lparr>v2_x = 0, v2_y = 0\<rparr>"
    and r_l: "lastHandPos r = Some \<lparr>v3_x = - 5, v3_y = - 4, v3_z = 0\<rparr>"
    by (simp_all add: r_def left_def useFrame_def rotationPhysics_def handBranch_def
        clampAndRotate_def initialRender_def Let_def lerp_def clamp_def MAX_SPEED_def)
  have v: "momentum (useFrame right r) = \<lparr>v2_x = - 0.5, v2_y = 0.5\<rparr>"
    by (simp add: right_def left_def useFrame_def rotationPhysics_def handBranch_def
        momentum_clampAndRotate Let_def r_m r_l lerp_def clamp_def MAX_SPEED_def SENSITIVITY_def
        MOMENTUM_LERP_def)
  from momentum_clamped_per_axis [of r right] m
  have "abs (v2_x (momentum (useFrame right r))) \<le> 0.5
      \<and> abs (v2_y (momentum (useFrame right r))) \<le> 0.5
      \<and> Vector2_length (momentum (useFrame right r)) \<le> 0.5 * sqrt 2"
    by (simp add: MAX_SPEED_def)
  with m v show ?thesis
    unfolding Let_def left_def [symmetric] right_def [symmetric] r_def [symmetric] by simp
qed

theorem momentum_magnitude_counterexample:
  "let left = \<lparr>elapsedTime = 0,
         props = initialStore\<lparr>isHandDetected := True,
                   handPosition := Some \<lparr>v3_x = - 5, v3_y = - 4, v3_z = 0\<rparr>\<rparr>,
         meshMounted = True, materialMounted = True, worldToLocal = (\<lambda>v. v)\<rparr>;
       right = left\<lparr>props := initialStore\<lparr>isHandDetected := True,
                   handPosition := Some \<lparr>v3_x = 5, v3_y = 4, v3_z = 0\<rparr>\<rparr>\<rparr>
   in \<not> Vector2_length (momentum (frames [left, right] (initialRender DEFAULT_CONFIG))) \<le> MAX_SPEED"
proof -
  define left where "left = \<lparr>elapsedTime = 0,
         props = initialStore\<lparr>isHandDetected := True,
                   handPosition := Some \<lparr>v3_x = - 5, v3_y = - 4, v3_z = 0\<rparr>\<rparr>,
         meshMounted = True, materialMounted = True, worldToLocal = (\<lambda>v::Vector3. v)\<rparr>"
  define right where "right = left\<lparr>props := initialStore\<lparr>isHandDetected := True,
                   handPosition := Some \<lparr>v3_x = 5, v3_y = 4, v3_z = 0\<rparr>\<rparr>\<rparr>"
  define r where "r = useFrame left (initialRender DEFAULT_CONFIG)"
  have r_m: "momentum r = \<lparr>v2_x = 0, v2_y = 0\<rparr>"
    and r_l: "lastHandPos r = Some \<lparr>v3_x = - 5, v3_y = - 4, v3_z = 0\<rparr>"
    by (simp_all add: r_def left_def useFrame_def rotationPhysics_def handBranch_def
        clampAndRotate_def initialRender_def Let_def lerp_def clamp_def MAX_SPEED_def)
  have v: "momentum (useFrame right r) = \<lparr>v2_x = - 0.5, v2_y = 0.5\<rparr>"
    by (simp add: right_def left_def useFrame_def rotationPhysics_def handBranch_def
        momentum_clampAndRotate Let_def r_m r_l lerp_def clamp_def MAX_SPEED_def SENSITIVITY_def
        MOMENTUM_LERP_def)
  have "Vector2_length (momentum (useFrame right r)) = sqrt (1 / 2)"
    by (simp add: v Vector2_length_def)
  moreover have "(1 / 2 :: real) < sqrt (1 / 2)"
    by (rule real_less_rsqrt) (simp add: power2_eq_square)
  ultimately have "\<not> Vector2_length (momentum (frames [left, right] (initialRender DEFAULT_CONFIG)))
      \<le> MAX_SPEED"
    by (simp add: r_def MAX_SPEED_def)
  then show ?thesis
    unfolding Let_def left_def [symmetric] right_def [symmetric] by simp
qed

section \<open>Friction\<close>

lemma useFrame_unmounted_momentum: "\<not> meshMounted p \<Longrightarrow> momentum (useFrame p r) = momentum r"
  by (simp add: useFrame_def Let_def)

lemma frames_momentum_bounded:
  "abs (v2_x (momentum r)) \<le> MAX_SPEED \<and> abs (v2_y (momentum r)) \<le> MAX_SPEED \<Longrightarrow>
   abs (v2_x (momentum (frames ps r))) \<le> MAX_SPEED \<and> abs (v2_y (momentum (frames ps r))) \<le> MAX_SPEED"
proof (induction ps arbitrary: r)
  case Nil
  then show ?case by simp
next
  case (Cons p ps)
  have "abs (v2_x (momentum (useFrame p r))) \<le> MAX_SPEED
      \<and> abs (v2_y (momentum (useFrame p r))) \<le> MAX_SPEED"
  proof (cases "meshMounted p")
    case True
    then show ?thesis by (rule useFrame_momentum_bounded)
  next
    case False
    then show ?thesis using Cons.prems by (simp add: useFrame_unmounted_momentum)
  qed
  from Cons.IH [OF this] show ?case by simp
qed

lemma idle_frames_zero:
  assumes "list_all noHandFrame ps" "momentum r = \<lparr>v2_x = 0, v2_y = 0\<rparr>"
  shows "momentum (frames ps r) = \<lparr>v2_x = 0, v2_y = 0\<rparr>"
  using idle_frames_le [OF assms(1), of r] assms(2) by simp

lemma idle_frames_snap:
  assumes idle: "list_all noHandFrame ps" and len: "423 \<le> length ps"
  shows "momentum (frames ps r) = \<lparr>v2_x = 0, v2_y = 0\<rparr>"
proof -
  define first where "first = hd ps"
  define middle where "middle = take 421 (tl ps)"
  define final where "final = ps ! 422"
  define rest where "rest = drop 423 ps"
  have parts: "ps = first # middle @ final # rest"
  proof -
    have "ps = take 422 ps @ drop 422 ps" by simp
    moreover have "take 422 ps = first # middle"
      using len unfolding first_def middle_def
      by (cases ps) (simp_all add: numeral_eq_Suc)
    moreover have "drop 422 ps = final # rest"
      using len unfolding final_def rest_def
      by (metis Cons_nth_drop_Suc Suc_le_lessD eval_nat_numeral(3) numeral_eq_Suc)
    ultimately show ?thesis by simp
  qed
  have m_len: "length middle = 421" using len by (simp add: middle_def)
  from idle have "list_all noHandFrame (first # middle @ final # rest)"
    by (subst (asm) parts)
  then have i1: "noHandFrame first" and i2: "list_all noHandFrame middle"
    and i3: "noHandFrame final" and i4: "list_all noHandFrame rest"
    by simp_all
  define r1 where "r1 = useFrame first r"
  define r2 where "r2 = frames middle r1"
  have b1: "abs (v2_x (momentum r1)) \<le> MAX_SPEED" "abs (v2_y (momentum r1)) \<le> MAX_SPEED"
    using useFrame_momentum_bounded [of first r] i1 by (simp_all add: r1_def)
  have f0: "(0::real) \<le> FRICTION ^ 421" by (simp add: FRICTION_def)
  have "abs (v2_x (momentum r2)) \<le> abs (v2_x (momentum r1)) * FRICTION ^ 421"
    using idle_frames_le [OF i2, of r1] by (simp add: r2_def m_len)
  also have "\<dots> \<le> MAX_SPEED * FRICTION ^ 421" by (rule mult_right_mono [OF b1(1) f0])
  finally have x2: "abs (v2_x (momentum r2)) \<le> MAX_SPEED * FRICTION ^ 421" .
  have "abs (v2_y (momentum r2)) \<le> abs (v2_y (momentum r1)) * FRICTION ^ 421"
    using idle_frames_le [OF i2, of r1] by (simp add: r2_def m_len)
  also have "\<dots> \<le> MAX_SPEED * FRICTION ^ 421" by (rule mult_right_mono [OF b1(2) f0])
  finally have y2: "abs (v2_y (momentum r2)) \<le> MAX_SPEED * FRICTION ^ 421" .
  have pw: "MAX_SPEED * FRICTION ^ 421 * FRICTION < 0.0001"
    using p422 by (simp add: power_Suc2 [symmetric] mult.assoc del: power_Suc)
  have fpos: "0 \<le> FRICTION" by (simp add: FRICTION_def)
  have "abs (v2_x (momentum r2) * FRICTION) = abs (v2_x (momentum r2)) * FRICTION"
    using fpos by (simp add: abs_mult)
  also have "\<dots> \<le> MAX_SPEED * FRICTION ^ 421 * FRICTION" by (rule mult_right_mono [OF x2 fpos])
  finally have x3: "abs (v2_x (momentum r2) * FRICTION) < 0.0001" using pw by linarith
  have "abs (v2_y (momentum r2) * FRICTION) = abs (v2_y (momentum r2)) * FRICTION"
    using fpos by (simp add: abs_mult)
  also have "\<dots> \<le> MAX_SPEED * FRICTION ^ 421 * FRICTION" by (rule mult_right_mono [OF y2 fpos])
  finally have y3: "abs (v2_y (momentum r2) * FRICTION) < 0.0001" using pw by linarith
  have z: "momentum (useFrame final r2) = \<lparr>v2_x = 0, v2_y = 0\<rparr>"
    by (simp add: useFrame_idle_momentum [OF i3] decay_zero [OF x3] decay_zero [OF y3])
  have "frames ps r = frames rest (useFrame final r2)"
    by (subst parts) (simp add: frames_append r1_def r2_def)
  then show ?thesis using idle_frames_zero [OF i4 z] by simp
qed


text \<open>
  C7. On a frame with no hand detected each component of the momentum is multiplied
  by the friction factor 0.98, set to zero when the product is below 0.0001 in absolute
  value, and clamped; the clamp changes nothing for a momentum within \<open>MAX_SPEED\<close>, as
  every momentum of a run from the initial state is. The absolute value of a component
  never grows and strictly falls while it is not zero; over a run of such frames it is
  at most the initial one times 0.98 to the number of frames, and after 423 frames,
  from any initial momentum, both components are exactly zero.
\<close>

theorem momentum_decays_to_zero:
  "(noHandFrame p \<longrightarrow>
      momentum (useFrame p r) =
        \<lparr>v2_x = clamp (snap (v2_x (momentum r) * FRICTION)) (- MAX_SPEED) MAX_SPEED,
         v2_y = clamp (snap (v2_y (momentum r) * FRICTION)) (- MAX_SPEED) MAX_SPEED\<rparr>
      \<and> abs (v2_x (momentum (useFrame p r))) \<le> abs (v2_x (momentum r))
      \<and> abs (v2_y (momentum (useFrame p r))) \<le> abs (v2_y (momentum r))
      \<and> (v2_x (momentum r) \<noteq> 0
          \<longrightarrow> abs (v2_x (momentum (useFrame p r))) < abs (v2_x (momentum r)))
      \<and> (v2_y (momentum r) \<noteq> 0
          \<longrightarrow> abs (v2_y (momentum (useFrame p r))) < abs (v2_y (momentum r)))
      \<and> (abs (v2_x (momentum r)) \<le> MAX_SPEED
          \<longrightarrow> v2_x (momentum (useFrame p r)) =
                (if abs (v2_x (momentum r) * 0.98) < 0.0001 then 0 else v2_x (momentum r) * 0.98))
      \<and> (abs (v2_y (momentum r)) \<le> MAX_SPEED
          \<longrightarrow> v2_y (momentum (useFrame p r)) =
                (if abs (v2_y (momentum r) * 0.98) < 0.0001 then 0 else v2_y (momentum r) * 0.98)))
   \<and> abs (v2_x (momentum (frames qs (initialRender c)))) \<le> MAX_SPEED
   \<and> abs (v2_y (momentum (frames qs (initialRender c)))) \<le> MAX_SPEED
   \<and> (list_all noHandFrame ps
      \<longrightarrow> abs (v2_x (momentum (frames ps r))) \<le> abs (v2_x (momentum r)) * 0.98 ^ length ps
        \<and> abs (v2_y (momentum (frames ps r))) \<le> abs (v2_y (momentum r)) * 0.98 ^ length ps)
   \<and> (list_all noHandFrame ps \<and> 423 \<le> length ps
      \<longrightarrow> momentum (frames ps r) = \<lparr>v2_x = 0, v2_y = 0\<rparr>)"
proof -
  have step: "noHandFrame p \<Longrightarrow>
      momentum (useFrame p r) =
        \<lparr>v2_x = clamp (snap (v2_x (momentum r) * FRICTION)) (- MAX_SPEED) MAX_SPEED,
         v2_y = clamp (snap (v2_y (momentum r) * FRICTION)) (- MAX_SPEED) MAX_SPEED\<rparr>"
    by (rule useFrame_idle_momentum)
  have le: "abs (clamp (snap (m * FRICTION)) (- MAX_SPEED) MAX_SPEED) \<le> abs m" for m
  proof -
    have "abs m * FRICTION \<le> abs m" by (simp add: FRICTION_def)
    with decay_le [of m] show ?thesis by linarith
  qed
  have exact: "abs m \<le> MAX_SPEED \<Longrightarrow>
      clamp (snap (m * FRICTION)) (- MAX_SPEED) MAX_SPEED =
        (if abs (m * 0.98) < 0.0001 then 0 else m * 0.98)" for m
    by (simp add: decay_in_range) (simp add: snap_def FRICTION_def)
  have one: "noHandFrame p \<longrightarrow>
      momentum (useFrame p r) =
        \<lparr>v2_x = clamp (snap (v2_x (momentum r) * FRICTION)) (- MAX_SPEED) MAX_SPEED,
         v2_y = clamp (snap (v2_y (momentum r) * FRICTION)) (- MAX_SPEED) MAX_SPEED\<rparr>
      \<and> abs (v2_x (momentum (useFrame p r))) \<le> abs (v2_x (momentum r))
      \<and> abs (v2_y (momentum (useFrame p r))) \<le> abs (v2_y (momentum r))
      \<and> (v2_x (momentum r) \<noteq> 0
          \<longrightarrow> abs (v2_x (momentum (useFrame p r))) < abs (v2_x (momentum r)))
      \<and> (v2_y (momentum r) \<noteq> 0
          \<longrightarrow> abs (v2_y (momentum (useFrame p r))) < abs (v2_y (momentum r)))
      \<and> (abs (v2_x (momentum r)) \<le> MAX_SPEED
          \<longrightarrow> v2_x (momentum (useFrame p r)) =
                (if abs (v2_x (momentum r) * 0.98) < 0.0001 then 0 else v2_x (momentum r) * 0.98))
      \<and> (abs (v2_y (momentum r)) \<le> MAX_SPEED
          \<longrightarrow> v2_y (momentum (useFrame p r)) =
                (if abs (v2_y (momentum r) * 0.98) < 0.0001 then 0 else v2_y (momentum r) * 0.98))"
  proof
    assume idle: "noHandFrame p"
    show "momentum (useFrame p r) =
        \<lparr>v2_x = clamp (snap (v2_x (momentum r) * FRICTION)) (- MAX_SPEED) MAX_SPEED,
         v2_y = clamp (snap (v2_y (momentum r) * FRICTION)) (- MAX_SPEED) MAX_SPEED\<rparr>
      \<and> abs (v2_x (momentum (useFrame p r))) \<le> abs (v2_x (momentum r))
      \<and> abs (v2_y (momentum (useFrame p r))) \<le> abs (v2_y (momentum r))
      \<and> (v2_x (momentum r) \<noteq> 0
          \<longrightarrow> abs (v2_x (momentum (useFrame p r))) < abs (v2_x (momentum r)))
      \<and> (v2_y (momentum r) \<noteq> 0
          \<longrightarrow> abs (v2_y (momentum (useFrame p r))) < abs (v2_y (momentum r)))
      \<and> (abs (v2_x (momentum r)) \<le> MAX_SPEED
          \<longrightarrow> v2_x (momentum (useFrame p r)) =
                (if abs (v2_x (momentum r) * 0.98) < 0.0001 then 0 else v2_x (momentum r) * 0.98))
      \<and> (abs (v2_y (momentum r)) \<le> MAX_SPEED
          \<longrightarrow> v2_y (momentum (useFrame p r)) =
                (if abs (v2_y (momentum r) * 0.98) < 0.0001 then 0 else v2_y (momentum r) * 0.98))"
      unfolding step [OF idle]
      using le [of "v2_x (momentum r)"] le [of "v2_y (momentum r)"]
        decay_strict [of "v2_x (momentum r)"] decay_strict [of "v2_y (momentum r)"]
        exact [of "v2_x (momentum r)"] exact [of "v2_y (momentum r)"]
      by simp
  qed
  have init: "abs (v2_x (momentum (initialRender c))) \<le> MAX_SPEED
      \<and> abs (v2_y (momentum (initialRender c))) \<le> MAX_SPEED"
    by (simp add: initialRender_def MAX_SPEED_def)
  have run: "list_all noHandFrame ps
      \<longrightarrow> abs (v2_x (momentum (frames ps r))) \<le> abs (v2_x (momentum r)) * 0.98 ^ length ps
        \<and> abs (v2_y (momentum (frames ps r))) \<le> abs (v2_y (momentum r)) * 0.98 ^ length ps"
    using idle_frames_le [of ps r] by (simp add: FRICTION_def)
  have zero: "list_all noHandFrame ps \<and> 423 \<le> length ps
      \<longrightarrow> momentum (frames ps r) = \<lparr>v2_x = 0, v2_y = 0\<rparr>"
    using idle_frames_snap [of ps r] by blast
  from one frames_momentum_bounded [OF init, of qs] run zero show ?thesis
    by blast
qed

theorem momentum_decays_to_zero_witness:
  "let idle = \<lparr>elapsedTime = 0, props = initialStore, meshMounted = True,
                materialMounted = True, worldToLocal = (\<lambda>v. v)\<rparr>;
       r = (initialRender DEFAULT_CONFIG)\<lparr>momentum := \<lparr>v2_x = 0.5, v2_y = - 0.0001\<rparr>\<rparr>
   in noHandFrame idle
      \<and> momentum (useFrame idle r) = \<lparr>v2_x = 0.49, v2_y = 0\<rparr>
      \<and> list_all noHandFrame (replicate 423 idle) \<and> 423 \<le> length (replicate 423 idle)
      \<and> momentum (frames (replicate 423 idle) r) = \<lparr>v2_x = 0, v2_y = 0\<rparr>"
proof -
  define idle where "idle = \<lparr>elapsedTime = 0, props = initialStore, meshMounted = True,
                materialMounted = True, worldToLocal = (\<lambda>v::Vector3. v)\<rparr>"
  define r where "r = (initialRender DEFAULT_CONFIG)\<lparr>momentum := \<lparr>v2_x = 0.5, v2_y = - 0.0001\<rparr>\<rparr>"
  have i: "noHandFrame idle" by (simp add: idle_def initialStore_def)
  have all: "list_all noHandFrame (replicate 423 idle) \<and> 423 \<le> length (replicate 423 idle)"
    using i by (simp add: list_all_iff)
  have m: "v2_x (momentum r) = 0.5" "v2_y (momentum r) = - 0.0001" by (simp_all add: r_def)
  have b: "abs (v2_x (momentum r)) \<le> MAX_SPEED" "abs (v2_y (momentum r)) \<le> MAX_SPEED"
    by (simp_all add: m MAX_SPEED_def)
  note inst = momentum_decays_to_zero [of idle r "[]" DEFAULT_CONFIG "replicate 423 idle"]
  from inst i b
  have "v2_x (momentum (useFrame idle r)) =
          (if abs (v2_x (momentum r) * 0.98) < 0.0001 then 0 else v2_x (momentum r) * 0.98)"
    and "v2_y (momentum (useFrame idle r)) =
          (if abs (v2_y (momentum r) * 0.98) < 0.0001 then 0 else v2_y (momentum r) * 0.98)"
    by blast+
  then have "v2_x (momentum (useFrame idle r)) = 0.49" "v2_y (momentum (useFrame idle r)) = 0"
    by (simp_all add: m)
  then have one: "momentum (useFrame idle r) = \<lparr>v2_x = 0.49, v2_y = 0\<rparr>"
    by (cases "momentum (useFrame idle r)") simp
  from inst all have "momentum (frames (replicate 423 idle) r) = \<lparr>v2_x = 0, v2_y = 0\<rparr>"
    by blast
  with i one all show ?thesis
    unfolding Let_def idle_def [symmetric] r_def [symmetric] by simp
qed

section \<open>The interaction radius\<close>








section \<open>Merging a generated configuration\<close>

lemma generateParticleConfig_fails:
  "(\<exists>e. generateParticleConfig JSON_parse generateContent q = Inl e) =
     ((\<exists>e. generateContent q = Inl e)
      \<or> (\<exists>response. generateContent q = Inr response
            \<and> (response_text response = None \<or> response_text response = Some []))
      \<or> (\<exists>response t e. generateContent q = Inr response \<and> response_text response = Some t
            \<and> t \<noteq> [] \<and> JSON_parse t = Inl e))"
  by (auto simp: generateParticleConfig_def split: sum.splits option.splits)

lemma handleSubmit_failure:
  assumes "trim (prompt c) \<noteq> []"
    and "generateParticleConfig JSON_parse generateContent (prompt c) = Inl e"
  shows "handleSubmit JSON_parse generateContent (c, st) =
     (c\<lparr>isLoading := False\<rparr>, st\<lparr>error := Some GENERATION_FAILED\<rparr>)"
  using assms by (simp add: handleSubmit_def Let_def setError_def)

lemma handleSubmit_success:
  assumes "trim (prompt c) \<noteq> []"
    and "generateParticleConfig JSON_parse generateContent (prompt c) = Inr newConfig"
  shows "handleSubmit JSON_parse generateContent (c, st) =
     (c\<lparr>prompt := [], isLoading := False\<rparr>,
      st\<lparr>error := None, config := spread (config st) newConfig\<rparr>)"
  using assms by (simp add: handleSubmit_def Let_def setError_def setConfig_def)

text \<open>
  C3. \<open>setConfig\<close> changes only the configuration of the store, and in it every field
  that is absent from the response keeps its prior value and every field that is
  present takes the value of the response; a successful submission stores exactly this
  merge.
\<close>

theorem setConfig_merges:
  "setConfig newConfig st = st\<lparr>config := config (setConfig newConfig st)\<rparr>
   \<and> color1 (config (setConfig newConfig st)) =
       (case p_color1 newConfig of None \<Rightarrow> color1 (config st) | Some v \<Rightarrow> v)
   \<and> color2 (config (setConfig newConfig st)) =
       (case p_color2 newConfig of None \<Rightarrow> color2 (config st) | Some v \<Rightarrow> v)
   \<and> particleSize (config (setConfig newConfig st)) =
       (case p_particleSize newConfig of None \<Rightarrow> particleSize (config st) | Some v \<Rightarrow> v)
   \<and> speed (config (setConfig newConfig st)) =
       (case p_speed newConfig of None \<Rightarrow> speed (config st) | Some v \<Rightarrow> v)
   \<and> noiseScale (config (setConfig newConfig st)) =
       (case p_noiseScale newConfig of None \<Rightarrow> noiseScale (config st) | Some v \<Rightarrow> v)
   \<and> interactionRadius (config (setConfig newConfig st)) =
       (case p_interactionRadius newConfig of None \<Rightarrow> interactionRadius (config st) | Some v \<Rightarrow> v)
   \<and> particleCount (config (setConfig newConfig st)) =
       (case p_particleCount newConfig of None \<Rightarrow> particleCount (config st) | Some v \<Rightarrow> v)
   \<and> (trim (prompt c) \<noteq> []
        \<and> generateParticleConfig JSON_parse generateContent (prompt c) = Inr newConfig
      \<longrightarrow> config (snd (handleSubmit JSON_parse generateContent (c, st))) =
            config (setConfig newConfig st))"
  using handleSubmit_success [of c JSON_parse generateContent newConfig st]
  by (simp add: setConfig_def spread_def)

theorem setConfig_merges_witness:
  "let response = \<lparr>p_color1 = Some ''#0ff'', p_color2 = Some ''#f0f'', p_particleSize = Some 0.2,
                    p_speed = Some 2.0, p_noiseScale = Some 1.5, p_interactionRadius = None,
                    p_particleCount = None\<rparr>;
       service = (\<lambda>q. Inr \<lparr>response_text = Some ''{...}''\<rparr>);
       parse = (\<lambda>t. Inr response);
       c = \<lparr>prompt = ''Cyberpunk Rain'', isLoading = False\<rparr>
   in trim (prompt c) \<noteq> []
      \<and> generateParticleConfig parse service (prompt c) = Inr response
      \<and> config (snd (handleSubmit parse service (c, initialStore))) =
          \<lparr>color1 = ''#0ff'', color2 = ''#f0f'', particleSize = 0.2, speed = 2.0,
           noiseScale = 1.5, interactionRadius = 2.0, particleCount = 8000\<rparr>"
proof -
  define response where
    "response = \<lparr>p_color1 = Some ''#0ff'', p_color2 = Some ''#f0f'', p_particleSize = Some 0.2,
                    p_speed = Some 2.0, p_noiseScale = Some 1.5, p_interactionRadius = None,
                    p_particleCount = None\<rparr>"
  define service :: "string \<Rightarrow> js_error + GenerateContentResponse"
    where "service = (\<lambda>q. Inr \<lparr>response_text = Some ''{...}''\<rparr>)"
  define parse :: "string \<Rightarrow> js_error + PartialParticleConfig"
    where "parse = (\<lambda>t. Inr response)"
  define c where "c = \<lparr>prompt = ''Cyberpunk Rain'', isLoading = False\<rparr>"
  have t: "trim (prompt c) \<noteq> []"
    by (simp add: c_def trim_def isWhiteSpace_def)
  have g: "generateParticleConfig parse service (prompt c) = Inr response"
    by (simp add: generateParticleConfig_def service_def parse_def)
  note inst = setConfig_merges [of response initialStore c parse service]
  from inst t g
  have "config (snd (handleSubmit parse service (c, initialStore))) =
      config (setConfig response initialStore)"
    by blast
  moreover from inst have "config (setConfig response initialStore) =
          \<lparr>color1 = ''#0ff'', color2 = ''#f0f'', particleSize = 0.2, speed = 2.0,
           noiseScale = 1.5, interactionRadius = 2.0, particleCount = 8000\<rparr>"
    by (cases "config (setConfig response initialStore)")
      (simp add: response_def initialStore_def DEFAULT_CONFIG_def)
  ultimately show ?thesis
    using t g
    unfolding Let_def response_def [symmetric] service_def [symmetric] parse_def [symmetric]
      c_def [symmetric]
    by simp
qed

text \<open>
  C4. The call fails exactly on a request error, a missing (or empty) response text,
  or a parse failure. When it fails, the submission leaves the store as it was, the
  configuration included, but for the error field, which holds the one fixed message
  whatever the failure was.
\<close>

theorem generation_failure_keeps_config:
  "(\<exists>e. generateParticleConfig JSON_parse generateContent (prompt c) = Inl e) =
     ((\<exists>e. generateContent (prompt c) = Inl e)
      \<or> (\<exists>response. generateContent (prompt c) = Inr response
            \<and> (response_text response = None \<or> response_text response = Some []))
      \<or> (\<exists>response t e. generateContent (prompt c) = Inr response
            \<and> response_text response = Some t \<and> t \<noteq> [] \<and> JSON_parse t = Inl e))
   \<and> (trim (prompt c) \<noteq> []
        \<and> generateParticleConfig JSON_parse generateContent (prompt c) = Inl e
      \<longrightarrow> snd (handleSubmit JSON_parse generateContent (c, st)) =
            st\<lparr>error := Some ''Failed to generate config. Check API Key or try again.''\<rparr>
          \<and> config (snd (handleSubmit JSON_parse generateContent (c, st))) = config st
          \<and> fst (handleSubmit JSON_parse generateContent (c, st)) = c\<lparr>isLoading := False\<rparr>)"
  using generateParticleConfig_fails [of JSON_parse generateContent "prompt c"]
    handleSubmit_failure [of c JSON_parse generateContent e st]
  by (simp add: GENERATION_FAILED_def)

theorem generation_failure_keeps_config_witness:
  "let c = \<lparr>prompt = ''Mars Dust'', isLoading = False\<rparr>;
       rejected = (\<lambda>q. Inl ApiError);
       no_text = (\<lambda>q. Inr \<lparr>response_text = None\<rparr>);
       garbled = (\<lambda>q. Inr \<lparr>response_text = Some ''{''\<rparr>);
       parse = (\<lambda>t. Inl SyntaxError);
       failed = initialStore\<lparr>error := Some ''Failed to generate config. Check API Key or try again.''\<rparr>
   in trim (prompt c) \<noteq> []
      \<and> generateParticleConfig parse rejected (prompt c) = Inl ApiError
      \<and> generateParticleConfig parse no_text (prompt c) = Inl (Error ''No response text from Gemini'')
      \<and> generateParticleConfig parse garbled (prompt c) = Inl SyntaxError
      \<and> snd (handleSubmit parse rejected (c, initialStore)) = failed
      \<and> snd (handleSubmit parse no_text (c, initialStore)) = failed
      \<and> snd (handleSubmit parse garbled (c, initialStore)) = failed
      \<and> config failed = DEFAULT_CONFIG"
proof -
  define c where "c = \<lparr>prompt = ''Mars Dust'', isLoading = False\<rparr>"
  define rejected :: "string \<Rightarrow> js_error + GenerateContentResponse"
    where "rejected = (\<lambda>q. Inl ApiError)"
  define no_text :: "string \<Rightarrow> js_error + GenerateContentResponse"
    where "no_text = (\<lambda>q. Inr \<lparr>response_text = None\<rparr>)"
  define garbled :: "string \<Rightarrow> js_error + GenerateContentResponse"
    where "garbled = (\<lambda>q. Inr \<lparr>response_text = Some ''{''\<rparr>)"
  define parse :: "string \<Rightarrow> js_error + PartialParticleConfig"
    where "parse = (\<lambda>t. Inl SyntaxError)"
  define failed where
    "failed = initialStore\<lparr>error := Some ''Failed to generate config. Check API Key or try again.''\<rparr>"
  have t: "trim (prompt c) \<noteq> []"
    by (simp add: c_def trim_def isWhiteSpace_def)
  have g1: "generateParticleConfig parse rejected (prompt c) = Inl ApiError"
    by (simp add: generateParticleConfig_def rejected_def)
  have g2: "generateParticleConfig parse no_text (prompt c) = Inl (Error ''No response text from Gemini'')"
    by (simp add: generateParticleConfig_def no_text_def)
  have g3: "generateParticleConfig parse garbled (prompt c) = Inl SyntaxError"
    by (simp add: generateParticleConfig_def garbled_def parse_def)
  from generation_failure_keeps_config [of parse rejected c ApiError initialStore] t g1
  have s1: "snd (handleSubmit parse rejected (c, initialStore)) = failed"
    unfolding failed_def by blast
  from generation_failure_keeps_config
    [of parse no_text c "Error ''No response text from Gemini''" initialStore] t g2
  have s2: "snd (handleSubmit parse no_text (c, initialStore)) = failed"
    unfolding failed_def by blast
  from generation_failure_keeps_config [of parse garbled c SyntaxError initialStore] t g3
  have s3: "snd (handleSubmit parse garbled (c, initialStore)) = failed"
    unfolding failed_def by blast
  have cf: "config failed = DEFAULT_CONFIG" by (simp add: failed_def initialStore_def)
  from t g1 g2 g3 s1 s2 s3 cf show ?thesis
    unfolding Let_def c_def [symmetric] rejected_def [symmetric] no_text_def [symmetric]
      garbled_def [symmetric] parse_def [symmetric] failed_def [symmetric]
    by simp
qed

end
